theory Spec2Isabelle
  imports Main "HOL-Library.Word"
begin

section \<open>Values and dictionaries\<close>

text \<open>
  The program handles the values that \<^verbatim>\<open>resp.json()\<close> produces: \<^verbatim>\<open>None\<close>, booleans,
  unbounded integers, floats, strings, lists and dictionaries. A float is kept as its
  IEEE 754 binary64 bit pattern; the program only copies floats and tests them for
  truth. A dictionary is an association list, read with \<^verbatim>\<open>dict.get\<close>.
\<close>

datatype json =
    JNull
  | JBool bool
  | JInt int
  | JFloat "64 word"
  | JStr string
  | JList "json list"
  | JObj "(string \<times> json) list"

type_synonym pydict = "(string \<times> json) list"

datatype error =
    TypeError
  | AttributeError
  | JSONDecodeError
  | OverflowError
  | UnsupportedType
  | DatatypeMismatch
  | DatabaseFull

text \<open>\<^verbatim>\<open>d.get(k)\<close> and \<^verbatim>\<open>d.get(k, default)\<close> on a dictionary.\<close>

definition get_default :: "pydict \<Rightarrow> string \<Rightarrow> json \<Rightarrow> json" where
  "get_default d k dflt = (case map_of d k of None \<Rightarrow> dflt | Some v \<Rightarrow> v)"

definition py_get :: "pydict \<Rightarrow> string \<Rightarrow> json" where
  "py_get d k = get_default d k JNull"

text \<open>
  \<^verbatim>\<open>x.get(k, default)\<close> on an arbitrary value: only a dictionary has the method, every
  other value raises \<^verbatim>\<open>AttributeError\<close>.
\<close>

fun attr_get :: "json \<Rightarrow> string \<Rightarrow> json \<Rightarrow> error + json" where
  "attr_get (JObj d) k dflt = Inr (get_default d k dflt)"
| "attr_get _ k dflt = Inl AttributeError"

text \<open>
  The elements a \<^verbatim>\<open>for\<close> loop (or \<^verbatim>\<open>list.extend\<close>) draws from a value: a list gives its
  elements, a string its one-character strings, a dictionary its keys; \<^verbatim>\<open>None\<close>,
  booleans and numbers are not iterable and raise \<^verbatim>\<open>TypeError\<close>.
\<close>

fun py_iter :: "json \<Rightarrow> error + json list" where
  "py_iter (JList xs) = Inr xs"
| "py_iter (JStr s) = Inr (map (\<lambda>c. JStr [c]) s)"
| "py_iter (JObj d) = Inr (map (\<lambda>kv. JStr (fst kv)) d)"
| "py_iter _ = Inl TypeError"

text \<open>Truth value of a value, as \<^verbatim>\<open>not x\<close> tests it.\<close>

fun truthy :: "json \<Rightarrow> bool" where
  "truthy JNull = False"
| "truthy (JBool b) = b"
| "truthy (JInt i) = (i \<noteq> 0)"
| "truthy (JFloat w) = (w \<noteq> 0 \<and> w \<noteq> 0x8000000000000000)"
| "truthy (JStr s) = (s \<noteq> [])"
| "truthy (JList xs) = (xs \<noteq> [])"
| "truthy (JObj d) = (d \<noteq> [])"

section \<open>Record Transformer\<close>

definition metadata_columns :: "string list" where
  "metadata_columns =
     [''id'', ''title'', ''culture'', ''period'', ''century'', ''medium'', ''dimensions'',
      ''description'', ''department'', ''classification'', ''accessionyear'',
      ''accessionmethod'']"

definition metadata_row :: "pydict \<Rightarrow> pydict" where
  "metadata_row rec =
     [(''id'', py_get rec ''id''),
      (''title'', py_get rec ''title''),
      (''culture'', py_get rec ''culture''),
      (''period'', py_get rec ''period''),
      (''century'', py_get rec ''century''),
      (''medium'', py_get rec ''medium''),
      (''dimensions'', py_get rec ''dimensions''),
      (''description'', py_get rec ''description''),
      (''department'', py_get rec ''department''),
      (''classification'', py_get rec ''classification''),
      (''accessionyear'', py_get rec ''accessionyear''),
      (''accessionmethod'', py_get rec ''accessionmethod'')]"

definition media_row :: "pydict \<Rightarrow> pydict" where
  "media_row rec =
     [(''objectid'', py_get rec ''id''),
      (''imagecount'', py_get rec ''imagecount''),
      (''mediacount'', py_get rec ''mediacount''),
      (''colorcount'', py_get rec ''colorcount''),
      (''rank'', py_get rec ''rank''),
      (''datebegin'', py_get rec ''datebegin''),
      (''dateend'', py_get rec ''dateend'')]"

text \<open>
  The dictionary appended for one entry \<open>c\<close> of the colour list; \<^verbatim>\<open>c.get\<close> raises when
  \<open>c\<close> is not a dictionary.
\<close>

fun color_row :: "pydict \<Rightarrow> json \<Rightarrow> error + pydict" where
  "color_row rec (JObj c) =
     Inr [(''objectid'', py_get rec ''id''),
          (''color'', py_get c ''color''),
          (''spectrum'', py_get c ''spectrum''),
          (''hue'', py_get c ''hue''),
          (''percent'', py_get c ''percent''),
          (''css3'', py_get c ''css3'')]"
| "color_row rec _ = Inl AttributeError"

text \<open>The inner loop \<^verbatim>\<open>for c in colors: colors_list.append({...})\<close>.\<close>

fun append_colors :: "pydict \<Rightarrow> json list \<Rightarrow> pydict list \<Rightarrow> error + pydict list" where
  "append_colors rec [] colors_list = Inr colors_list"
| "append_colors rec (c # cs) colors_list =
     (case color_row rec c of
        Inl e \<Rightarrow> Inl e
      | Inr row \<Rightarrow> append_colors rec cs (colors_list @ [row]))"

text \<open>
  The outer loop \<^verbatim>\<open>for rec in records\<close>, with the three lists it appends to. An
  exception leaves the function, and the lists built so far with it.
\<close>

fun transform_loop ::
  "pydict list \<Rightarrow> pydict list \<Rightarrow> pydict list \<Rightarrow> pydict list
   \<Rightarrow> error + (pydict list \<times> pydict list \<times> pydict list)" where
  "transform_loop [] metadata_list media_list colors_list =
     Inr (metadata_list, media_list, colors_list)"
| "transform_loop (rec # recs) metadata_list media_list colors_list =
     (let metadata_list' = metadata_list @ [metadata_row rec];
          media_list' = media_list @ [media_row rec]
      in case py_iter (get_default rec ''colors'' (JList [])) of
           Inl e \<Rightarrow> Inl e
         | Inr colors \<Rightarrow>
             (case append_colors rec colors colors_list of
                Inl e \<Rightarrow> Inl e
              | Inr colors_list' \<Rightarrow> transform_loop recs metadata_list' media_list' colors_list'))"

definition transform_records ::
  "pydict list \<Rightarrow> error + (pydict list \<times> pydict list \<times> pydict list)" where
  "transform_records records = transform_loop records [] [] []"

text \<open>
  The colour entries of a record as the loop meets them, and the records on which the
  loop body runs to its end: the colour value, when present, can be iterated and every
  entry of it is a dictionary.
\<close>

definition color_entries :: "pydict \<Rightarrow> json list" where
  "color_entries rec =
     (case py_iter (get_default rec ''colors'' (JList [])) of Inl e \<Rightarrow> [] | Inr cs \<Rightarrow> cs)"

fun is_obj :: "json \<Rightarrow> bool" where
  "is_obj (JObj d) = True"
| "is_obj _ = False"

definition colors_wellformed :: "pydict \<Rightarrow> bool" where
  "colors_wellformed rec =
     (case py_iter (get_default rec ''colors'' (JList [])) of
        Inl e \<Rightarrow> False
      | Inr cs \<Rightarrow> list_all is_obj cs)"

text \<open>The colour rows of a well-formed record, in the order of its colour list.\<close>

fun the_obj :: "json \<Rightarrow> pydict" where
  "the_obj (JObj d) = d"
| "the_obj _ = []"

definition color_rows :: "pydict \<Rightarrow> pydict list" where
  "color_rows rec =
     map (\<lambda>c. [(''objectid'', py_get rec ''id''),
                (''color'', py_get (the_obj c) ''color''),
                (''spectrum'', py_get (the_obj c) ''spectrum''),
                (''hue'', py_get (the_obj c) ''hue''),
                (''percent'', py_get (the_obj c) ''percent''),
                (''css3'', py_get (the_obj c) ''css3'')])
         (color_entries rec)"

section \<open>Remote Fetcher\<close>

text \<open>
  One request carries the query parameters of the source's \<^verbatim>\<open>params\<close> dictionary. The
  remote endpoint is a function from the request to the response; within one call every
  page number is requested at most once, so this covers every sequence of responses. A
  response has the status code and the value \<^verbatim>\<open>resp.json()\<close> decodes, \<open>None\<close> when the
  body is not JSON and decoding raises. The page counter starts at 1 and only grows, so
  it is a natural number.
\<close>

record params =
  apikey :: string
  classification :: string
  size :: int
  page :: nat
  hasimage :: int

record response =
  status_code :: int
  body :: "json option"

type_synonym endpoint = "params \<Rightarrow> response"

definition API_KEY :: string where
  "API_KEY = ''0ebcef01-70c7-4fc7-ab93-24a406b4fade''"

definition mk_params :: "string \<Rightarrow> int \<Rightarrow> nat \<Rightarrow> params" where
  "mk_params cls sz pg =
     \<lparr>apikey = API_KEY, classification = cls, size = sz, page = pg, hasimage = 1\<rparr>"

text \<open>
  What the program does to the outside during a fetch: the requests it sends and the
  diagnostics it shows with \<^verbatim>\<open>st.error\<close>.
\<close>

datatype event = HttpGet params | StError int

text \<open>
  One pass through the loop body, from the request to the test of the next-page
  indicator: the status is not 200 (\<open>Failed\<close>), an exception is raised (\<open>Raised\<close>), or
  the page gives the records to append and the truth value of \<^verbatim>\<open>info.next\<close> (\<open>Page\<close>).
\<close>

datatype page_result = Failed int | Raised error | Page "json list" bool

definition resp_json :: "response \<Rightarrow> error + json" where
  "resp_json resp = (case body resp of None \<Rightarrow> Inl JSONDecodeError | Some data \<Rightarrow> Inr data)"

definition read_page :: "response \<Rightarrow> page_result" where
  "read_page resp =
     (if status_code resp \<noteq> 200 then Failed (status_code resp)
      else case resp_json resp of
        Inl e \<Rightarrow> Raised e
      | Inr data \<Rightarrow>
          (case attr_get data ''records'' (JList []) of
             Inl e \<Rightarrow> Raised e
           | Inr recs \<Rightarrow>
               (case py_iter recs of
                  Inl e \<Rightarrow> Raised e
                | Inr new \<Rightarrow>
                    (case attr_get data ''info'' (JObj []) of
                       Inl e \<Rightarrow> Raised e
                     | Inr info \<Rightarrow>
                         (case attr_get info ''next'' JNull of
                            Inl e \<Rightarrow> Raised e
                          | Inr nxt \<Rightarrow> Page new (truthy nxt))))))"

definition page_outcome :: "endpoint \<Rightarrow> string \<Rightarrow> int \<Rightarrow> nat \<Rightarrow> page_result" where
  "page_outcome api cls sz pg = read_page (api (mk_params cls sz pg))"

text \<open>
  The \<^verbatim>\<open>while\<close> loop. It may run forever, so its value is an option: \<open>None\<close> when it does
  not return. The result is the list \<^verbatim>\<open>records\<close> at the end of the loop, or the exception
  that left it, with the events so far.
\<close>

partial_function (option) fetch_loop ::
  "endpoint \<Rightarrow> string \<Rightarrow> int \<Rightarrow> int \<Rightarrow> json list \<Rightarrow> nat \<Rightarrow> event list
   \<Rightarrow> ((error + json list) \<times> event list) option" where
  "fetch_loop api cls sz max_records records pg log =
     (if int (length records) < max_records then
        (case page_outcome api cls sz pg of
           Failed st \<Rightarrow> Some (Inr records, log @ [HttpGet (mk_params cls sz pg), StError st])
         | Raised e \<Rightarrow> Some (Inl e, log @ [HttpGet (mk_params cls sz pg)])
         | Page new nxt \<Rightarrow>
             if \<not> nxt then Some (Inr (records @ new), log @ [HttpGet (mk_params cls sz pg)])
             else fetch_loop api cls sz max_records (records @ new) (pg + 1)
                    (log @ [HttpGet (mk_params cls sz pg)]))
      else Some (Inr records, log))"

text \<open>The slice \<^verbatim>\<open>records[:max_records]\<close>; a negative bound counts from the end.\<close>

definition py_prefix :: "'a list \<Rightarrow> int \<Rightarrow> 'a list" where
  "py_prefix xs m = (if 0 \<le> m then take (nat m) xs else take (length xs - nat (- m)) xs)"

definition fetch_artifacts_by_classification ::
  "endpoint \<Rightarrow> string \<Rightarrow> int \<Rightarrow> int \<Rightarrow> ((error + json list) \<times> event list) option" where
  "fetch_artifacts_by_classification api cls sz max_records =
     (case fetch_loop api cls sz max_records [] 1 [] of
        None \<Rightarrow> None
      | Some (Inl e, log) \<Rightarrow> Some (Inl e, log)
      | Some (Inr records, log) \<Rightarrow> Some (Inr (py_prefix records max_records), log))"

text \<open>
  The records of page \<open>pg\<close> (none when the page fails), the records of \<open>n\<close> pages from
  page \<open>p\<close> on, and the pages after which the loop goes on to the next one.
\<close>

definition page_records :: "endpoint \<Rightarrow> string \<Rightarrow> int \<Rightarrow> nat \<Rightarrow> json list" where
  "page_records api cls sz pg =
     (case page_outcome api cls sz pg of Page new nxt \<Rightarrow> new | _ \<Rightarrow> [])"

definition pages_from :: "endpoint \<Rightarrow> string \<Rightarrow> int \<Rightarrow> nat \<Rightarrow> nat \<Rightarrow> json list" where
  "pages_from api cls sz p n = concat (map (page_records api cls sz) [p ..< p + n])"

definition has_next :: "endpoint \<Rightarrow> string \<Rightarrow> int \<Rightarrow> nat \<Rightarrow> bool" where
  "has_next api cls sz pg =
     (case page_outcome api cls sz pg of Page new nxt \<Rightarrow> nxt | _ \<Rightarrow> False)"

definition is_last :: "endpoint \<Rightarrow> string \<Rightarrow> int \<Rightarrow> nat \<Rightarrow> bool" where
  "is_last api cls sz pg =
     (case page_outcome api cls sz pg of Page new nxt \<Rightarrow> \<not> nxt | _ \<Rightarrow> False)"

text \<open>
  The endpoint delivers a finite collection of \<open>L\<close> pages without a transport error:
  pages 1 to \<open>L - 1\<close> carry a next-page indicator and page \<open>L\<close> is a page without one.
  \<open>total_available\<close> is the number of records of these pages.
\<close>

definition collection_ends_at :: "endpoint \<Rightarrow> string \<Rightarrow> int \<Rightarrow> nat \<Rightarrow> bool" where
  "collection_ends_at api cls sz L =
     (0 < L \<and> list_all (has_next api cls sz) [1 ..< L] \<and> is_last api cls sz L)"

definition total_available :: "endpoint \<Rightarrow> string \<Rightarrow> int \<Rightarrow> nat \<Rightarrow> nat" where
  "total_available api cls sz L = length (pages_from api cls sz 1 L)"

definition requests :: "event list \<Rightarrow> nat list" where
  "requests log = concat (map (\<lambda>ev. case ev of HttpGet ps \<Rightarrow> [page ps] | StError st \<Rightarrow> []) log)"

section \<open>Store and Loader\<close>

text \<open>
  The store is the SQLite file the three \<^verbatim>\<open>CREATE TABLE\<close> statements describe. A stored
  value has one of the storage classes NULL, INTEGER, REAL and TEXT; a column has the
  affinity of its declared type. \<^verbatim>\<open>artifact_metadata\<close> declares
  \<^verbatim>\<open>id INTEGER PRIMARY KEY\<close>, so it is keyed by its row id: a row is the key with the
  other eleven columns. The other two tables declare no key; their hidden row ids cannot
  be read with \<^verbatim>\<open>SELECT *\<close> and are left out. Foreign keys are declared and not
  enforced: the program never switches enforcement on.
\<close>

datatype sqlval = SNull | SInt int | SReal "64 word" | SText string

datatype affinity = AffInteger | AffText | AffReal

record db =
  artifact_metadata :: "(int \<times> sqlval list) list"
  artifact_media :: "sqlval list list"
  artifact_colors :: "sqlval list list"

text \<open>
  The conversions of the engine that depend on the decimal notation of floating point
  numbers, and its choice of a row id once the largest one is taken, are parameters of
  the model.
\<close>

record engine =
  real_to_text :: "64 word \<Rightarrow> string"
  text_to_numeric :: "string \<Rightarrow> sqlval option"
  real_to_int :: "64 word \<Rightarrow> int option"
  int_to_real :: "int \<Rightarrow> 64 word"
  random_rowid :: "int list \<Rightarrow> int option"

definition int64 :: "int \<Rightarrow> bool" where
  "int64 i = (- (2 ^ 63) \<le> i \<and> i < 2 ^ 63)"

definition is_nan :: "64 word \<Rightarrow> bool" where
  "is_nan w = (and w 0x7FF0000000000000 = 0x7FF0000000000000 \<and> and w 0x000FFFFFFFFFFFFF \<noteq> 0)"

text \<open>
  Binding one Python value to a \<^verbatim>\<open>?\<close> of a statement: \<^verbatim>\<open>None\<close>, integers that fit 64
  bits, floats and strings are supported; a boolean is an integer; NaN is stored as
  NULL; an integer beyond 64 bits raises \<^verbatim>\<open>OverflowError\<close>; a list or a dictionary is
  refused with the driver's error for an unsupported type.
\<close>

fun bind :: "json \<Rightarrow> error + sqlval" where
  "bind JNull = Inr SNull"
| "bind (JBool b) = Inr (SInt (if b then 1 else 0))"
| "bind (JInt i) = (if int64 i then Inr (SInt i) else Inl OverflowError)"
| "bind (JFloat w) = Inr (if is_nan w then SNull else SReal w)"
| "bind (JStr s) = Inr (SText s)"
| "bind (JList xs) = Inl UnsupportedType"
| "bind (JObj d) = Inl UnsupportedType"

fun bind_all :: "json list \<Rightarrow> error + sqlval list" where
  "bind_all [] = Inr []"
| "bind_all (v # vs) =
     (case bind v of
        Inl e \<Rightarrow> Inl e
      | Inr x \<Rightarrow> (case bind_all vs of Inl e \<Rightarrow> Inl e | Inr xs \<Rightarrow> Inr (x # xs)))"

fun digits :: "nat \<Rightarrow> string" where
  "digits n = (if n < 10 then [char_of (48 + n)] else digits (n div 10) @ [char_of (48 + n mod 10)])"

definition show_int :: "int \<Rightarrow> string" where
  "show_int i = (if i < 0 then CHR ''-'' # digits (nat (- i)) else digits (nat i))"

text \<open>
  The value a column of the given affinity stores for a bound value. A REAL column keeps
  a float as it is, except negative zero (\<open>0x8000000000000000\<close>), which it gives back
  as positive zero.
\<close>

fun apply_affinity :: "engine \<Rightarrow> affinity \<Rightarrow> sqlval \<Rightarrow> sqlval" where
  "apply_affinity eng AffText (SInt i) = SText (show_int i)"
| "apply_affinity eng AffText (SReal w) = SText (real_to_text eng w)"
| "apply_affinity eng AffText v = v"
| "apply_affinity eng AffInteger (SText s) =
     (case text_to_numeric eng s of None \<Rightarrow> SText s | Some v \<Rightarrow> v)"
| "apply_affinity eng AffInteger (SReal w) =
     (case real_to_int eng w of None \<Rightarrow> SReal w | Some i \<Rightarrow> SInt i)"
| "apply_affinity eng AffInteger v = v"
| "apply_affinity eng AffReal (SText s) =
     (case text_to_numeric eng s of
        None \<Rightarrow> SText s
      | Some (SInt i) \<Rightarrow> SReal (int_to_real eng i)
      | Some v \<Rightarrow> v)"
| "apply_affinity eng AffReal (SInt i) = SReal (int_to_real eng i)"
| "apply_affinity eng AffReal (SReal w) = SReal (if w = 0x8000000000000000 then 0 else w)"
| "apply_affinity eng AffReal v = v"

definition metadata_affinities :: "affinity list" where
  "metadata_affinities =
     [AffInteger, AffText, AffText, AffText, AffText, AffText, AffText, AffText, AffText,
      AffText, AffInteger, AffText]"

definition media_columns :: "string list" where
  "media_columns =
     [''objectid'', ''imagecount'', ''mediacount'', ''colorcount'', ''rank'', ''datebegin'',
      ''dateend'']"

definition media_affinities :: "affinity list" where
  "media_affinities =
     [AffInteger, AffInteger, AffInteger, AffInteger, AffInteger, AffInteger, AffInteger]"

definition color_columns :: "string list" where
  "color_columns = [''objectid'', ''color'', ''spectrum'', ''hue'', ''percent'', ''css3'']"

definition color_affinities :: "affinity list" where
  "color_affinities = [AffInteger, AffText, AffText, AffText, AffReal, AffText]"

text \<open>
  The values one \<^verbatim>\<open>cur.execute\<close> passes for a row dictionary, and the row the table
  stores for them.
\<close>

definition row_values :: "string list \<Rightarrow> pydict \<Rightarrow> json list" where
  "row_values cols r = map (py_get r) cols"

definition stored_row :: "engine \<Rightarrow> affinity list \<Rightarrow> sqlval list \<Rightarrow> sqlval list" where
  "stored_row eng affs vals = map2 (apply_affinity eng) affs vals"

text \<open>
  The row id given to a row inserted with a NULL key: one more than the largest one, 1 in
  an empty table, the engine's choice when the largest is the greatest 64-bit integer.
\<close>

definition new_rowid :: "engine \<Rightarrow> int list \<Rightarrow> int option" where
  "new_rowid eng ids =
     (if ids = [] then Some 1
      else if Max (set ids) < 2 ^ 63 - 1 then Some (Max (set ids) + 1)
      else random_rowid eng ids)"

text \<open>
  \<^verbatim>\<open>INSERT OR IGNORE INTO artifact_metadata\<close> for one row: a key that is already in the
  table makes the statement a no-op; a key that is not an integer after conversion is a
  datatype mismatch, which \<^verbatim>\<open>OR IGNORE\<close> does not cover.
\<close>

definition insert_metadata_row ::
  "engine \<Rightarrow> (int \<times> sqlval list) list \<Rightarrow> pydict \<Rightarrow> error + (int \<times> sqlval list) list" where
  "insert_metadata_row eng tbl r =
     (case bind_all (row_values metadata_columns r) of
        Inl e \<Rightarrow> Inl e
      | Inr vals \<Rightarrow>
          (case stored_row eng metadata_affinities vals of
             SNull # rest \<Rightarrow>
               (case new_rowid eng (map fst tbl) of
                  None \<Rightarrow> Inl DatabaseFull
                | Some k \<Rightarrow> Inr (tbl @ [(k, rest)]))
           | SInt k # rest \<Rightarrow> if k \<in> set (map fst tbl) then Inr tbl else Inr (tbl @ [(k, rest)])
           | _ \<Rightarrow> Inl DatatypeMismatch))"

text \<open>
  \<^verbatim>\<open>INSERT OR IGNORE\<close> into the two tables without a key: there is no constraint a row
  could violate, so every row that binds is appended.
\<close>

definition insert_plain_row ::
  "engine \<Rightarrow> string list \<Rightarrow> affinity list \<Rightarrow> sqlval list list \<Rightarrow> pydict
   \<Rightarrow> error + sqlval list list" where
  "insert_plain_row eng cols affs tbl r =
     (case bind_all (row_values cols r) of
        Inl e \<Rightarrow> Inl e
      | Inr vals \<Rightarrow> Inr (tbl @ [stored_row eng affs vals]))"

text \<open>The loop \<^verbatim>\<open>for r in records: cur.execute(...)\<close>; an exception ends it.\<close>

fun exec_rows :: "('t \<Rightarrow> pydict \<Rightarrow> error + 't) \<Rightarrow> 't \<Rightarrow> pydict list \<Rightarrow> error + 't" where
  "exec_rows step tbl [] = Inr tbl"
| "exec_rows step tbl (r # rs) =
     (case step tbl r of Inl e \<Rightarrow> Inl e | Inr tbl' \<Rightarrow> exec_rows step tbl' rs)"

text \<open>
  \<^verbatim>\<open>with get_connection() as conn: ...; conn.commit()\<close>. The statements of the block run in
  one transaction. When the block ends the connection commits; when an exception leaves
  it the connection rolls back and the exception goes on to the caller. The result is
  the exception, if any, and the committed store.
\<close>

definition with_connection :: "(db \<Rightarrow> error + db) \<Rightarrow> db \<Rightarrow> error option \<times> db" where
  "with_connection block d =
     (case block d of Inl e \<Rightarrow> (Some e, d) | Inr d' \<Rightarrow> (None, d'))"

definition insert_metadata :: "engine \<Rightarrow> db \<Rightarrow> pydict list \<Rightarrow> error option \<times> db" where
  "insert_metadata eng d records =
     with_connection
       (\<lambda>w. case exec_rows (insert_metadata_row eng) (artifact_metadata w) records of
              Inl e \<Rightarrow> Inl e
            | Inr tbl \<Rightarrow> Inr (w\<lparr>artifact_metadata := tbl\<rparr>)) d"

definition insert_media :: "engine \<Rightarrow> db \<Rightarrow> pydict list \<Rightarrow> error option \<times> db" where
  "insert_media eng d records =
     with_connection
       (\<lambda>w. case exec_rows (insert_plain_row eng media_columns media_affinities)
                   (artifact_media w) records of
              Inl e \<Rightarrow> Inl e
            | Inr tbl \<Rightarrow> Inr (w\<lparr>artifact_media := tbl\<rparr>)) d"

definition insert_colors :: "engine \<Rightarrow> db \<Rightarrow> pydict list \<Rightarrow> error option \<times> db" where
  "insert_colors eng d records =
     with_connection
       (\<lambda>w. case exec_rows (insert_plain_row eng color_columns color_affinities)
                   (artifact_colors w) records of
              Inl e \<Rightarrow> Inl e
            | Inr tbl \<Rightarrow> Inr (w\<lparr>artifact_colors := tbl\<rparr>)) d"

text \<open>
  \<^verbatim>\<open>run_query\<close> on \<^verbatim>\<open>SELECT * FROM artifact_metadata WHERE id = i\<close>: the rows with that key,
  all twelve columns in the order of the table, as the Python values the driver returns.
\<close>

fun to_py :: "sqlval \<Rightarrow> json" where
  "to_py SNull = JNull"
| "to_py (SInt i) = JInt i"
| "to_py (SReal w) = JFloat w"
| "to_py (SText s) = JStr s"

definition run_query_metadata_by_id :: "db \<Rightarrow> int \<Rightarrow> json list list" where
  "run_query_metadata_by_id d i =
     map (\<lambda>row. map to_py (SInt (fst row) # snd row))
         (filter (\<lambda>row. fst row = i) (artifact_metadata d))"

text \<open>
  Rows and stores the loader's properties are about: a value the driver can bind; a value
  that has the storage class of its column or is null; a metadata row with an integer
  key; a metadata table in which no key occurs twice.
\<close>

definition bindable :: "json \<Rightarrow> bool" where
  "bindable v = (case bind v of Inl e \<Rightarrow> False | Inr x \<Rightarrow> True)"

fun fits :: "affinity \<Rightarrow> json \<Rightarrow> bool" where
  "fits aff JNull = True"
| "fits AffInteger (JInt i) = int64 i"
| "fits AffText (JStr s) = True"
| "fits AffReal (JFloat w) = (\<not> is_nan w \<and> w \<noteq> 0x8000000000000000)"
| "fits aff v = False"

fun int_key :: "json \<Rightarrow> int option" where
  "int_key (JInt i) = (if int64 i then Some i else None)"
| "int_key v = None"

definition keyed_row :: "pydict \<Rightarrow> bool" where
  "keyed_row r =
     (int_key (py_get r ''id'') \<noteq> None \<and> list_all bindable (row_values metadata_columns r))"

definition typed_metadata_row :: "pydict \<Rightarrow> bool" where
  "typed_metadata_row r = list_all2 fits metadata_affinities (row_values metadata_columns r)"

definition unique_keys :: "db \<Rightarrow> bool" where
  "unique_keys d = distinct (map fst (artifact_metadata d))"

definition rows_with_id :: "db \<Rightarrow> int \<Rightarrow> nat" where
  "rows_with_id d i = length (filter (\<lambda>row. fst row = i) (artifact_metadata d))"

text \<open>
  The row a table without key stores for a row dictionary whose values all bind (when
  one does not bind, nothing is stored and this is the empty row), the rows whose values
  all bind, and the rows whose values are null or of the type of their column.
\<close>

definition stored_form :: "engine \<Rightarrow> string list \<Rightarrow> affinity list \<Rightarrow> pydict \<Rightarrow> sqlval list" where
  "stored_form eng cols affs r =
     (case bind_all (row_values cols r) of Inl e \<Rightarrow> [] | Inr vals \<Rightarrow> stored_row eng affs vals)"

definition bindable_row :: "string list \<Rightarrow> pydict \<Rightarrow> bool" where
  "bindable_row cols r = list_all bindable (row_values cols r)"

definition typed_row :: "string list \<Rightarrow> affinity list \<Rightarrow> pydict \<Rightarrow> bool" where
  "typed_row cols affs r = list_all2 fits affs (row_values cols r)"

definition copies :: "'a list \<Rightarrow> 'a \<Rightarrow> nat" where
  "copies tbl row = length (filter (\<lambda>x. x = row) tbl)"

section \<open>Loop postcondition and example inputs\<close>

text \<open>
  What holds of a value \<open>y\<close> the loop returns when it is entered with \<open>records\<close>, page
  \<open>p\<close> and the events \<open>log\<close>: it has requested the next \<open>n\<close> pages in order, a
  returned list is \<open>records\<close> followed by the records of these pages, a run without a
  diagnostic ended on the bound or on a page without next-page indicator, and a loop
  that was entered below the bound met a page where it stops.
\<close>

definition loop_post ::
  "endpoint \<Rightarrow> string \<Rightarrow> int \<Rightarrow> int \<Rightarrow> json list \<Rightarrow> nat \<Rightarrow> event list
   \<Rightarrow> ((error + json list) \<times> event list) \<Rightarrow> bool" where
  "loop_post api cls sz maxr records p log y =
     ((\<exists>n. requests (snd y) = requests log @ [p ..< p + n]
           \<and> (\<forall>rs. fst y = Inr rs \<longrightarrow>
                 rs = records @ pages_from api cls sz p n
                 \<and> ((\<forall>st. StError st \<notin> set (snd y)) \<longrightarrow>
                      maxr \<le> int (length rs)
                      \<or> (0 < n \<and> list_all (has_next api cls sz) [p ..< p + n - 1]
                          \<and> is_last api cls sz (p + n - 1)))))
      \<and> (int (length records) < maxr \<longrightarrow>
           (\<exists>d. \<not> has_next api cls sz (p + d)
               \<or> maxr \<le> int (length (records @ pages_from api cls sz p (Suc d))))))"

text \<open>
  Three endpoints: one that answers every request with an empty page that announces a
  next page; one with two records on page 1 and one on page 2, the last page; one whose
  second page answers with status 500.
\<close>

definition endless_empty_pages :: endpoint where
  "endless_empty_pages ps =
     \<lparr>status_code = 200,
      body = Some (JObj [(''records'', JList []),
                         (''info'', JObj [(''next'', JStr ''more'')])])\<rparr>"

definition two_pages :: endpoint where
  "two_pages ps =
     (if page ps = 1 then
        \<lparr>status_code = 200,
         body = Some (JObj [(''records'', JList [JObj [(''id'', JInt 1)], JObj [(''id'', JInt 2)]]),
                            (''info'', JObj [(''next'', JStr ''more'')])])\<rparr>
      else if page ps = 2 then
        \<lparr>status_code = 200,
         body = Some (JObj [(''records'', JList [JObj [(''id'', JInt 3)]]),
                            (''info'', JObj [])])\<rparr>
      else \<lparr>status_code = 404, body = None\<rparr>)"

definition failing_second :: endpoint where
  "failing_second ps =
     (if page ps = 1 then
        \<lparr>status_code = 200,
         body = Some (JObj [(''records'', JList [JObj [(''id'', JInt 1)], JObj [(''id'', JInt 2)]]),
                            (''info'', JObj [(''next'', JStr ''more'')])])\<rparr>
      else \<lparr>status_code = 500, body = None\<rparr>)"

text \<open>Raw records, a store, and row dictionaries used as concrete inputs.\<close>

definition record_42 :: pydict where
  "record_42 =
     [(''id'', JInt 42), (''title'', JStr ''Coin''),
      (''colors'', JList [JObj [(''color'', JStr ''Red''), (''hue'', JStr ''Red'')],
                          JObj [(''color'', JStr ''Blue'')]])]"

definition record_no_colors :: pydict where
  "record_no_colors = [(''id'', JInt 7), (''colors'', JList [])]"

definition empty_db :: db where
  "empty_db = \<lparr>artifact_metadata = [], artifact_media = [], artifact_colors = []\<rparr>"

definition coin_row :: pydict where
  "coin_row = [(''id'', JInt 42), (''title'', JStr ''Coin''), (''accessionyear'', JInt 1950)]"

definition vase_row :: pydict where
  "vase_row = [(''id'', JInt 7), (''title'', JStr ''Vase'')]"

definition malformed_row :: pydict where
  "malformed_row = [(''id'', JInt 8), (''title'', JList [JStr ''a'', JStr ''b''])]"

definition coin_media :: pydict where
  "coin_media = [(''objectid'', JInt 42), (''imagecount'', JInt 3)]"

definition vase_media :: pydict where
  "vase_media = [(''objectid'', JInt 7), (''rank'', JInt 12)]"

definition coin_color :: pydict where
  "coin_color =
     [(''objectid'', JInt 42), (''color'', JStr ''Red''), (''percent'', JFloat 0x3FE0000000000000)]"

section \<open>Properties of the Record Transformer\<close>

lemma append_colors_ok:
  "list_all is_obj cs \<Longrightarrow>
   append_colors rec cs acc =
     Inr (acc @ map (\<lambda>c. [(''objectid'', py_get rec ''id''),
                (''color'', py_get (the_obj c) ''color''),
                (''spectrum'', py_get (the_obj c) ''spectrum''),
                (''hue'', py_get (the_obj c) ''hue''),
                (''percent'', py_get (the_obj c) ''percent''),
                (''css3'', py_get (the_obj c) ''css3'')]) cs)"
proof (induction cs arbitrary: acc)
  case Nil
  then show ?case by simp
next
  case (Cons c cs)
  then obtain d where c: "c = JObj d" by (cases c) auto
  with Cons show ?case by simp
qed

lemma append_colors_bad:
  "\<not> list_all is_obj cs \<Longrightarrow> append_colors rec cs acc = Inl AttributeError"
proof (induction cs arbitrary: acc)
  case Nil
  then show ?case by simp
next
  case (Cons c cs)
  then show ?case by (cases c) auto
qed

lemma transform_loop_ok:
  "list_all colors_wellformed recs \<Longrightarrow>
   transform_loop recs a b c =
     Inr (a @ map metadata_row recs, b @ map media_row recs, c @ concat (map color_rows recs))"
proof (induction recs arbitrary: a b c)
  case Nil
  then show ?case by simp
next
  case (Cons r recs)
  from Cons.prems have wf: "colors_wellformed r" and rest: "list_all colors_wellformed recs"
    by simp_all
  from wf obtain cs where it: "py_iter (get_default r ''colors'' (JList [])) = Inr cs"
    and objs: "list_all is_obj cs"
    by (auto simp: colors_wellformed_def split: sum.splits)
  have rows: "append_colors r cs c = Inr (c @ color_rows r)"
    using append_colors_ok [OF objs] by (simp add: color_rows_def color_entries_def it)
  show ?case
    by (simp add: it rows Cons.IH [OF rest])
qed

lemma transform_loop_bad:
  "\<not> list_all colors_wellformed recs \<Longrightarrow> \<exists>e. transform_loop recs a b c = Inl e"
proof (induction recs arbitrary: a b c)
  case Nil
  then show ?case by simp
next
  case (Cons r recs)
  show ?case
  proof (cases "colors_wellformed r")
    case True
    then obtain cs where it: "py_iter (get_default r ''colors'' (JList [])) = Inr cs"
      and objs: "list_all is_obj cs"
      by (auto simp: colors_wellformed_def split: sum.splits)
    have rows: "append_colors r cs c = Inr (c @ color_rows r)"
      using append_colors_ok [OF objs] by (simp add: color_rows_def color_entries_def it)
    from True Cons.prems have "\<not> list_all colors_wellformed recs" by simp
    from Cons.IH [OF this] show ?thesis by (simp add: it rows)
  next
    case False
    then show ?thesis
      by (auto simp: colors_wellformed_def append_colors_bad split: sum.splits)
  qed
qed

lemma length_color_rows: "length (color_rows r) = length (color_entries r)"
  by (simp add: color_rows_def)

lemma length_concat_color_rows:
  "length (concat (map color_rows recs)) = sum_list (map (\<lambda>r. length (color_entries r)) recs)"
  by (induction recs) (simp_all add: length_color_rows)

lemma objectid_color_rows:
  "map (\<lambda>row. py_get row ''objectid'') (color_rows r)
     = replicate (length (color_entries r)) (py_get r ''id'')"
  by (simp add: color_rows_def py_get_def get_default_def o_def map_replicate_const)

lemma transform_records_Inr:
  "transform_records records = Inr res \<Longrightarrow>
   res = (map metadata_row records, map media_row records, concat (map color_rows records))"
  using transform_loop_ok [of records "[]" "[]" "[]"] transform_loop_bad [of records "[]" "[]" "[]"]
  by (cases "list_all colors_wellformed records") (auto simp: transform_records_def)

text \<open>
  Claim C1 says that \<open>transform_records\<close> returns three lists for every list of raw
  records. It does not: a record whose \<^verbatim>\<open>colors\<close> value is \<^verbatim>\<open>None\<close> makes the inner
  \<^verbatim>\<open>for\<close> loop raise \<^verbatim>\<open>TypeError\<close>, and a colour entry that is not a dictionary makes
  \<^verbatim>\<open>c.get\<close> raise \<^verbatim>\<open>AttributeError\<close>; no list is returned.
\<close>

theorem transform_records_not_total:
  "transform_records [[(''id'', JInt 1), (''colors'', JNull)]] = Inl TypeError
   \<and> transform_records [[(''id'', JInt 1), (''colors'', JList [JStr ''Red''])]] = Inl AttributeError"
  by (simp add: transform_records_def get_default_def)

text \<open>
  Claim C1, amended: for every list of raw records in which each record's \<^verbatim>\<open>colors\<close>
  value, when present, can be iterated and holds only dictionaries (the empty list,
  records that miss fields and records with an empty colour list are among them),
  \<open>transform_records\<close> returns three lists: one metadata row and one media row per
  record, in the order of the records, so that both lists are as long as the input; and
  the colour rows of the records one after the other, each record's rows in the order
  of its colour list, so that their number is the sum of the lengths of the colour
  lists.
\<close>

theorem transform_records_wellformed:
  "list_all colors_wellformed records \<Longrightarrow>
   transform_records records =
     Inr (map metadata_row records, map media_row records, concat (map color_rows records))
   \<and> length (map metadata_row records) = length records
   \<and> length (map media_row records) = length records
   \<and> length (concat (map color_rows records))
       = sum_list (map (\<lambda>r. length (color_entries r)) records)"
  using transform_loop_ok [of records "[]" "[]" "[]"]
  by (simp add: transform_records_def length_concat_color_rows)

text \<open>
  The amended claim C1 at a record with two colours, a record with an empty colour list
  and a record without any field.
\<close>

theorem transform_records_wellformed_witness:
  "list_all colors_wellformed [record_42, record_no_colors, []]
   \<and> transform_records [record_42, record_no_colors, []]
       = Inr (map metadata_row [record_42, record_no_colors, []],
              map media_row [record_42, record_no_colors, []],
              color_rows record_42)
   \<and> length (color_rows record_42) = 2"
proof -
  have w: "list_all colors_wellformed [record_42, record_no_colors, []]"
    by (simp add: colors_wellformed_def record_42_def record_no_colors_def get_default_def)
  have c: "color_rows record_no_colors = []" "color_rows [] = []"
    by (simp_all add: color_rows_def color_entries_def record_no_colors_def get_default_def)
  have l: "length (color_entries record_42) = 2"
    by (simp add: color_entries_def record_42_def get_default_def)
  from transform_records_wellformed [OF w] w c l show ?thesis
    by (simp add: length_color_rows)
qed

text \<open>
  Claim C10: whenever \<open>transform_records\<close> returns its three lists, the media row of
  every record carries that record's id as \<^verbatim>\<open>objectid\<close>, in the order of the records,
  and every colour row made from a record carries that record's id as \<^verbatim>\<open>objectid\<close>
  (the metadata row carries it as \<^verbatim>\<open>id\<close>).
\<close>

theorem transform_object_ids:
  assumes "transform_records records = Inr (metadata_list, media_list, colors_list)"
  shows "map (\<lambda>row. py_get row ''id'') metadata_list = map (\<lambda>r. py_get r ''id'') records
       \<and> map (\<lambda>row. py_get row ''objectid'') media_list = map (\<lambda>r. py_get r ''id'') records
       \<and> map (\<lambda>row. py_get row ''objectid'') colors_list
           = concat (map (\<lambda>r. replicate (length (color_entries r)) (py_get r ''id'')) records)"
proof -
  from transform_records_Inr [OF assms]
  have md: "metadata_list = map metadata_row records"
    and me: "media_list = map media_row records"
    and cs: "colors_list = concat (map color_rows records)" by simp_all
  have 1: "map (\<lambda>row. py_get row ''id'') metadata_list = map (\<lambda>r. py_get r ''id'') records"
    by (simp add: md metadata_row_def py_get_def get_default_def)
  have 2: "map (\<lambda>row. py_get row ''objectid'') media_list = map (\<lambda>r. py_get r ''id'') records"
    by (simp add: me media_row_def py_get_def get_default_def)
  have 3: "map (\<lambda>row. py_get row ''objectid'') colors_list
           = concat (map (\<lambda>r. replicate (length (color_entries r)) (py_get r ''id'')) records)"
    unfolding cs by (induction records) (simp_all add: objectid_color_rows)
  from 1 2 3 show ?thesis by simp
qed

text \<open>
  The scenario of claim C10: a record with id 42 and a colour list of two entries gives
  one metadata row, one media row and two colour rows, all with object id 42.
\<close>

theorem transform_object_ids_witness:
  "transform_records [record_42]
     = Inr ([metadata_row record_42], [media_row record_42], color_rows record_42)
   \<and> length (color_rows record_42) = 2
   \<and> map (\<lambda>row. py_get row ''id'') [metadata_row record_42] = [JInt 42]
   \<and> map (\<lambda>row. py_get row ''objectid'') [media_row record_42] = [JInt 42]
   \<and> map (\<lambda>row. py_get row ''objectid'') (color_rows record_42) = [JInt 42, JInt 42]"
proof -
  have t: "transform_records [record_42]
     = Inr ([metadata_row record_42], [media_row record_42], color_rows record_42)"
    by (simp add: transform_records_def record_42_def get_default_def color_rows_def
        color_entries_def py_get_def)
  have l: "length (color_entries record_42) = 2"
    by (simp add: color_entries_def record_42_def get_default_def)
  have i: "py_get record_42 ''id'' = JInt 42"
    by (simp add: record_42_def py_get_def get_default_def)
  from transform_object_ids [OF t] t l i show ?thesis
    by (simp add: length_color_rows numeral_2_eq_2)
qed

section \<open>Properties of the Remote Fetcher\<close>

lemma loop_done:
  "\<not> int (length records) < maxr \<Longrightarrow>
   fetch_loop api cls sz maxr records pg log = Some (Inr records, log)"
  by (subst fetch_loop.simps) simp

lemma loop_failed:
  "int (length records) < maxr \<Longrightarrow> page_outcome api cls sz pg = Failed st \<Longrightarrow>
   fetch_loop api cls sz maxr records pg log
     = Some (Inr records, log @ [HttpGet (mk_params cls sz pg), StError st])"
  by (subst fetch_loop.simps) simp

lemma loop_raised:
  "int (length records) < maxr \<Longrightarrow> page_outcome api cls sz pg = Raised e \<Longrightarrow>
   fetch_loop api cls sz maxr records pg log
     = Some (Inl e, log @ [HttpGet (mk_params cls sz pg)])"
  by (subst fetch_loop.simps) simp

lemma loop_last:
  "int (length records) < maxr \<Longrightarrow> page_outcome api cls sz pg = Page new False \<Longrightarrow>
   fetch_loop api cls sz maxr records pg log
     = Some (Inr (records @ new), log @ [HttpGet (mk_params cls sz pg)])"
  by (subst fetch_loop.simps) simp

lemma loop_next:
  "int (length records) < maxr \<Longrightarrow> page_outcome api cls sz pg = Page new True \<Longrightarrow>
   fetch_loop api cls sz maxr records pg log
     = fetch_loop api cls sz maxr (records @ new) (Suc pg)
         (log @ [HttpGet (mk_params cls sz pg)])"
  by (subst fetch_loop.simps) simp

lemma has_next_outcome:
  "has_next api cls sz pg \<Longrightarrow>
   page_outcome api cls sz pg = Page (page_records api cls sz pg) True"
  by (auto simp: has_next_def page_records_def split: page_result.splits)

lemma is_last_outcome:
  "is_last api cls sz pg \<Longrightarrow>
   page_outcome api cls sz pg = Page (page_records api cls sz pg) False"
  by (auto simp: is_last_def page_records_def split: page_result.splits)

lemma pages_from_0: "pages_from api cls sz p 0 = []"
  by (simp add: pages_from_def)

lemma pages_from_Suc_front:
  "pages_from api cls sz p (Suc n) = page_records api cls sz p @ pages_from api cls sz (Suc p) n"
proof -
  have "[p ..< p + Suc n] = p # [Suc p ..< Suc p + n]"
    by (simp add: upt_rec [of p])
  then show ?thesis by (simp add: pages_from_def)
qed

lemma pages_from_add:
  "pages_from api cls sz p (n + m) = pages_from api cls sz p n @ pages_from api cls sz (p + n) m"
proof -
  have "[p ..< p + (n + m)] = [p ..< p + n] @ [p + n ..< p + n + m]"
    by (metis add.assoc le_add1 upt_add_eq_append)
  then show ?thesis by (simp add: pages_from_def)
qed

lemma length_pages_from_mono:
  "m \<le> n \<Longrightarrow> length (pages_from api cls sz p m) \<le> length (pages_from api cls sz p n)"
  using pages_from_add [of api cls sz p m "n - m"] by simp

lemma loop_advance:
  "list_all (has_next api cls sz) [p ..< p + n] \<Longrightarrow>
   \<forall>m<n. int (length (records @ pages_from api cls sz p m)) < maxr \<Longrightarrow>
   fetch_loop api cls sz maxr records p log
     = fetch_loop api cls sz maxr (records @ pages_from api cls sz p n) (p + n)
         (log @ map (\<lambda>j. HttpGet (mk_params cls sz j)) [p ..< p + n])"
proof (induction n arbitrary: p records log)
  case 0
  then show ?case by (simp add: pages_from_0)
next
  case (Suc n)
  have upt: "[p ..< p + Suc n] = p # [Suc p ..< Suc p + n]"
    by (simp add: upt_rec [of p])
  from Suc.prems(1) have hp: "has_next api cls sz p"
    and rest: "list_all (has_next api cls sz) [Suc p ..< Suc p + n]"
    unfolding upt by simp_all
  from Suc.prems(2) have small: "int (length records) < maxr"
    by (auto simp: pages_from_0 dest: spec [of _ 0])
  have later: "\<forall>m<n. int (length ((records @ page_records api cls sz p)
                   @ pages_from api cls sz (Suc p) m)) < maxr"
  proof (intro allI impI)
    fix m assume "m < n"
    then have "Suc m < Suc n" by simp
    with Suc.prems(2) have "int (length (records @ pages_from api cls sz p (Suc m))) < maxr"
      by blast
    then show "int (length ((records @ page_records api cls sz p)
                   @ pages_from api cls sz (Suc p) m)) < maxr"
      by (simp add: pages_from_Suc_front)
  qed
  have "fetch_loop api cls sz maxr records p log
        = fetch_loop api cls sz maxr (records @ page_records api cls sz p) (Suc p)
            (log @ [HttpGet (mk_params cls sz p)])"
    by (rule loop_next [OF small has_next_outcome [OF hp]])
  also have "\<dots> = fetch_loop api cls sz maxr
            ((records @ page_records api cls sz p) @ pages_from api cls sz (Suc p) n) (Suc p + n)
            ((log @ [HttpGet (mk_params cls sz p)])
              @ map (\<lambda>j. HttpGet (mk_params cls sz j)) [Suc p ..< Suc p + n])"
    by (rule Suc.IH [OF rest later])
  finally show ?case
    unfolding upt pages_from_Suc_front by simp
qed

lemma requests_append: "requests (xs @ ys) = requests xs @ requests ys"
  by (simp add: requests_def)

lemma requests_get: "requests [HttpGet (mk_params cls sz p)] = [p]"
  by (simp add: requests_def mk_params_def)

lemma requests_get_error: "requests [HttpGet (mk_params cls sz p), StError st] = [p]"
  by (simp add: requests_def mk_params_def)

lemma pages_from_1: "pages_from api cls sz p (Suc 0) = page_records api cls sz p"
  by (simp add: pages_from_Suc_front pages_from_0)

lemma upt_front: "[p ..< p + Suc n] = p # [Suc p ..< Suc p + n]"
  by (simp add: upt_rec [of p])

lemma loop_post_done:
  "\<not> int (length records) < maxr \<Longrightarrow> loop_post api cls sz maxr records p log (Inr records, log)"
  unfolding loop_post_def
  by (auto intro!: exI [of _ 0] simp: pages_from_0)

lemma loop_post_stop:
  assumes "\<not> has_next api cls sz p"
    and "requests log' = requests log @ [p]"
    and "\<forall>rs. r = Inr rs \<longrightarrow> rs = records @ page_records api cls sz p
            \<and> ((\<forall>st. StError st \<notin> set log') \<longrightarrow> is_last api cls sz p)"
  shows "loop_post api cls sz maxr records p log (r, log')"
proof -
  have a: "\<exists>n. requests log' = requests log @ [p ..< p + n]
           \<and> (\<forall>rs. r = Inr rs \<longrightarrow>
                 rs = records @ pages_from api cls sz p n
                 \<and> ((\<forall>st. StError st \<notin> set log') \<longrightarrow>
                      maxr \<le> int (length rs)
                      \<or> (0 < n \<and> list_all (has_next api cls sz) [p ..< p + n - 1]
                          \<and> is_last api cls sz (p + n - 1))))"
    using assms(2,3) by (intro exI [of _ "Suc 0"]) (simp add: pages_from_1)
  have b: "\<exists>d. \<not> has_next api cls sz (p + d)
               \<or> maxr \<le> int (length (records @ pages_from api cls sz p (Suc d)))"
    using assms(1) by (intro exI [of _ 0]) simp
  from a b show ?thesis unfolding loop_post_def by simp
qed

lemma loop_post_step:
  assumes hn: "page_outcome api cls sz p = Page new True"
    and post: "loop_post api cls sz maxr (records @ new) (Suc p)
                 (log @ [HttpGet (mk_params cls sz p)]) y"
  shows "loop_post api cls sz maxr records p log y"
proof -
  have pr: "page_records api cls sz p = new"
    by (simp add: page_records_def hn)
  have hp: "has_next api cls sz p"
    by (simp add: has_next_def hn)
  from post obtain n where
    rq: "requests (snd y) = requests (log @ [HttpGet (mk_params cls sz p)]) @ [Suc p ..< Suc p + n]"
    and rs: "\<forall>rs. fst y = Inr rs \<longrightarrow>
               rs = (records @ new) @ pages_from api cls sz (Suc p) n
               \<and> ((\<forall>st. StError st \<notin> set (snd y)) \<longrightarrow>
                    maxr \<le> int (length rs)
                    \<or> (0 < n \<and> list_all (has_next api cls sz) [Suc p ..< Suc p + n - 1]
                        \<and> is_last api cls sz (Suc p + n - 1)))"
    unfolding loop_post_def by blast
  have pages: "0 < n \<Longrightarrow> list_all (has_next api cls sz) [Suc p ..< Suc p + n - 1] \<Longrightarrow>
               list_all (has_next api cls sz) [p ..< p + Suc n - 1]"
  proof -
    assume "0 < n" and r: "list_all (has_next api cls sz) [Suc p ..< Suc p + n - 1]"
    then have "[p ..< p + Suc n - 1] = p # [Suc p ..< Suc p + n - 1]"
      by (simp add: upt_rec [of p])
    with hp r show ?thesis by simp
  qed
  have a: "\<exists>n. requests (snd y) = requests log @ [p ..< p + n]
           \<and> (\<forall>rs. fst y = Inr rs \<longrightarrow>
                 rs = records @ pages_from api cls sz p n
                 \<and> ((\<forall>st. StError st \<notin> set (snd y)) \<longrightarrow>
                      maxr \<le> int (length rs)
                      \<or> (0 < n \<and> list_all (has_next api cls sz) [p ..< p + n - 1]
                          \<and> is_last api cls sz (p + n - 1))))"
  proof (intro exI [of _ "Suc n"] conjI allI impI)
    show "requests (snd y) = requests log @ [p ..< p + Suc n]"
      unfolding upt_front using rq by (simp add: requests_append requests_get)
  next
    fix rs assume "fst y = Inr rs"
    with rs show "rs = records @ pages_from api cls sz p (Suc n)"
      by (simp add: pages_from_Suc_front pr)
  next
    fix rs assume y: "fst y = Inr rs" and quiet: "\<forall>st. StError st \<notin> set (snd y)"
    with rs have "maxr \<le> int (length rs)
        \<or> (0 < n \<and> list_all (has_next api cls sz) [Suc p ..< Suc p + n - 1]
            \<and> is_last api cls sz (Suc p + n - 1))"
      by blast
    then show "maxr \<le> int (length rs)
        \<or> (0 < Suc n \<and> list_all (has_next api cls sz) [p ..< p + Suc n - 1]
            \<and> is_last api cls sz (p + Suc n - 1))"
      using pages by auto
  qed
  have b: "\<exists>d. \<not> has_next api cls sz (p + d)
               \<or> maxr \<le> int (length (records @ pages_from api cls sz p (Suc d)))"
  proof (cases "int (length (records @ new)) < maxr")
    case True
    with post obtain d where
      "\<not> has_next api cls sz (Suc p + d)
        \<or> maxr \<le> int (length ((records @ new) @ pages_from api cls sz (Suc p) (Suc d)))"
      unfolding loop_post_def by blast
    then have "\<not> has_next api cls sz (p + Suc d)
        \<or> maxr \<le> int (length (records @ pages_from api cls sz p (Suc (Suc d))))"
      by (simp add: pages_from_Suc_front [of api cls sz p] pr)
    then show ?thesis by blast
  next
    case False
    then have "maxr \<le> int (length (records @ pages_from api cls sz p (Suc 0)))"
      by (simp add: pages_from_1 pr)
    then show ?thesis by blast
  qed
  from a b show ?thesis unfolding loop_post_def by simp
qed

lemma loop_returns:
  assumes "fetch_loop api cls sz maxr records p log = Some y"
  shows "loop_post api cls sz maxr records p log y"
proof (rule fetch_loop.raw_induct [where P = loop_post, OF _ assms])
  fix f :: "endpoint \<Rightarrow> string \<Rightarrow> int \<Rightarrow> int \<Rightarrow> json list \<Rightarrow> nat \<Rightarrow> event list
            \<Rightarrow> ((error + json list) \<times> event list) option"
  fix api cls sz maxr records p log y
  assume IH: "\<And>api cls sz maxr records p log y.
                f api cls sz maxr records p log = Some y \<Longrightarrow>
                loop_post api cls sz maxr records p log y"
  assume body: "(if int (length records) < maxr then
        (case page_outcome api cls sz p of
           Failed st \<Rightarrow> Some (Inr records, log @ [HttpGet (mk_params cls sz p), StError st])
         | Raised e \<Rightarrow> Some (Inl e, log @ [HttpGet (mk_params cls sz p)])
         | Page new nxt \<Rightarrow>
             if \<not> nxt then Some (Inr (records @ new), log @ [HttpGet (mk_params cls sz p)])
             else f api cls sz maxr (records @ new) (p + 1)
                    (log @ [HttpGet (mk_params cls sz p)]))
      else Some (Inr records, log)) = Some y"
  show "loop_post api cls sz maxr records p log y"
  proof (cases "int (length records) < maxr")
    case False
    with body have "y = (Inr records, log)" by simp
    with False show ?thesis by (simp add: loop_post_done)
  next
    case small: True
    show ?thesis
    proof (cases "page_outcome api cls sz p")
      case (Failed st)
      with body small have y: "y = (Inr records, log @ [HttpGet (mk_params cls sz p), StError st])"
        by simp
      show ?thesis unfolding y
        by (rule loop_post_stop)
           (auto simp: has_next_def page_records_def Failed requests_append requests_get_error)
    next
      case (Raised e)
      with body small have y: "y = (Inl e, log @ [HttpGet (mk_params cls sz p)])"
        by simp
      show ?thesis unfolding y
        by (rule loop_post_stop)
           (simp_all add: has_next_def Raised requests_append requests_get)
    next
      case (Page new nxt)
      show ?thesis
      proof (cases nxt)
        case False
        with body small Page
        have y: "y = (Inr (records @ new), log @ [HttpGet (mk_params cls sz p)])"
          by simp
        show ?thesis unfolding y
          by (rule loop_post_stop)
             (simp_all add: has_next_def is_last_def page_records_def Page False requests_append
              requests_get)
      next
        case True
        with body small Page
        have "f api cls sz maxr (records @ new) (Suc p)
                (log @ [HttpGet (mk_params cls sz p)]) = Some y"
          by simp
        from Page True have hn: "page_outcome api cls sz p = Page new True" by simp
        from IH [OF \<open>f api cls sz maxr (records @ new) (Suc p)
                (log @ [HttpGet (mk_params cls sz p)]) = Some y\<close>] show ?thesis
          by (rule loop_post_step [OF hn])
      qed
    qed
  qed
qed

lemma loop_terminates:
  "\<not> has_next api cls sz (p + d)
     \<or> maxr \<le> int (length (records @ pages_from api cls sz p (Suc d))) \<Longrightarrow>
   \<exists>y. fetch_loop api cls sz maxr records p log = Some y"
proof (induction d arbitrary: p records log)
  case 0
  show ?case
  proof (cases "int (length records) < maxr")
    case False
    then show ?thesis by (simp add: loop_done)
  next
    case small: True
    show ?thesis
    proof (cases "page_outcome api cls sz p")
      case (Failed st)
      then show ?thesis by (simp add: loop_failed [OF small])
    next
      case (Raised e)
      then show ?thesis by (simp add: loop_raised [OF small])
    next
      case (Page new nxt)
      show ?thesis
      proof (cases nxt)
        case False
        with Page show ?thesis by (simp add: loop_last [OF small])
      next
        case True
        with Page have hn: "page_outcome api cls sz p = Page new True" by simp
        then have "has_next api cls sz p" and pr: "page_records api cls sz p = new"
          by (simp_all add: has_next_def page_records_def)
        with 0 have "\<not> int (length (records @ new)) < maxr"
          by (simp add: pages_from_1)
        then show ?thesis
          by (simp add: loop_next [OF small hn] loop_done)
      qed
    qed
  qed
next
  case (Suc d)
  show ?case
  proof (cases "int (length records) < maxr")
    case False
    then show ?thesis by (simp add: loop_done)
  next
    case small: True
    show ?thesis
    proof (cases "page_outcome api cls sz p")
      case (Failed st)
      then show ?thesis by (simp add: loop_failed [OF small])
    next
      case (Raised e)
      then show ?thesis by (simp add: loop_raised [OF small])
    next
      case (Page new nxt)
      show ?thesis
      proof (cases nxt)
        case False
        with Page show ?thesis by (simp add: loop_last [OF small])
      next
        case True
        with Page have hn: "page_outcome api cls sz p = Page new True" by simp
        then have pr: "page_records api cls sz p = new"
          by (simp add: page_records_def)
        from Suc.prems
        have "\<not> has_next api cls sz (Suc p + d)
              \<or> maxr \<le> int (length ((records @ new) @ pages_from api cls sz (Suc p) (Suc d)))"
          by (simp add: pages_from_Suc_front [of api cls sz p] pr)
        from Suc.IH [OF this] show ?thesis
          by (simp add: loop_next [OF small hn])
      qed
    qed
  qed
qed

lemma loop_collection:
  "p + d = L \<Longrightarrow> list_all (has_next api cls sz) [p ..< L] \<Longrightarrow> is_last api cls sz L \<Longrightarrow>
   \<exists>n log'. n \<le> Suc d
      \<and> fetch_loop api cls sz maxr records p log
          = Some (Inr (records @ pages_from api cls sz p n), log')
      \<and> (n = Suc d \<or> maxr \<le> int (length (records @ pages_from api cls sz p n)))"
proof (induction d arbitrary: p records log)
  case 0
  then have last: "is_last api cls sz p" by simp
  show ?case
  proof (cases "int (length records) < maxr")
    case False
    then have "fetch_loop api cls sz maxr records p log
                 = Some (Inr (records @ pages_from api cls sz p 0), log)"
      by (simp add: loop_done pages_from_0)
    with False show ?thesis
      by (intro exI [of _ 0] exI [of _ log]) (simp add: pages_from_0)
  next
    case True
    from loop_last [OF True is_last_outcome [OF last]]
    show ?thesis
      by (intro exI [of _ "Suc 0"] exI [of _ "log @ [HttpGet (mk_params cls sz p)]"])
         (simp add: pages_from_1)
  qed
next
  case (Suc d)
  from Suc.prems(1) have upt: "[p ..< L] = p # [Suc p ..< L]"
    by (simp add: upt_rec [of p])
  from Suc.prems(2) have hp: "has_next api cls sz p"
    and rest: "list_all (has_next api cls sz) [Suc p ..< L]"
    unfolding upt by simp_all
  show ?case
  proof (cases "int (length records) < maxr")
    case False
    then have "fetch_loop api cls sz maxr records p log
                 = Some (Inr (records @ pages_from api cls sz p 0), log)"
      by (simp add: loop_done pages_from_0)
    with False show ?thesis
      by (intro exI [of _ 0] exI [of _ log]) (simp add: pages_from_0)
  next
    case True
    from Suc.prems(1) have "Suc p + d = L" by simp
    from Suc.IH [OF this rest Suc.prems(3),
        of "records @ page_records api cls sz p" "log @ [HttpGet (mk_params cls sz p)]"]
    obtain n log' where n: "n \<le> Suc d"
      and run: "fetch_loop api cls sz maxr (records @ page_records api cls sz p) (Suc p)
                  (log @ [HttpGet (mk_params cls sz p)])
                = Some (Inr ((records @ page_records api cls sz p)
                     @ pages_from api cls sz (Suc p) n), log')"
      and stop: "n = Suc d \<or> maxr \<le> int (length ((records @ page_records api cls sz p)
                     @ pages_from api cls sz (Suc p) n))"
      by blast
    have "fetch_loop api cls sz maxr records p log
            = Some (Inr (records @ pages_from api cls sz p (Suc n)), log')"
      using loop_next [OF True has_next_outcome [OF hp]] run
      by (simp add: pages_from_Suc_front)
    moreover have "Suc n = Suc (Suc d)
        \<or> maxr \<le> int (length (records @ pages_from api cls sz p (Suc n)))"
      using stop by (simp add: pages_from_Suc_front)
    ultimately show ?thesis using n
      by (intro exI [of _ "Suc n"] exI [of _ log']) simp
  qed
qed

lemma take_pages_prefix:
  assumes "n \<le> L" and "m \<le> length (pages_from api cls sz p n)"
  shows "take m (pages_from api cls sz p L) = take m (pages_from api cls sz p n)"
proof -
  from assms(1) have "pages_from api cls sz p L
      = pages_from api cls sz p n @ pages_from api cls sz (p + n) (L - n)"
    using pages_from_add [of api cls sz p n "L - n"] by simp
  with assms(2) show ?thesis by simp
qed

lemma fetch_collection:
  assumes max: "0 \<le> maxr" and coll: "collection_ends_at api cls sz L"
  shows "\<exists>log. fetch_artifacts_by_classification api cls sz maxr
            = Some (Inr (take (nat maxr) (pages_from api cls sz 1 L)), log)"
proof -
  from coll have L: "0 < L" and hn: "list_all (has_next api cls sz) [1 ..< L]"
    and last: "is_last api cls sz L"
    by (simp_all add: collection_ends_at_def)
  from L have "1 + (L - 1) = L" by simp
  from loop_collection [OF this hn last, of maxr "[]" "[]"]
  obtain n log' where n: "n \<le> Suc (L - 1)"
    and run: "fetch_loop api cls sz maxr [] 1 [] = Some (Inr (pages_from api cls sz 1 n), log')"
    and stop: "n = Suc (L - 1) \<or> maxr \<le> int (length (pages_from api cls sz 1 n))"
    by auto
  from n L have nL: "n \<le> L" by simp
  have "take (nat maxr) (pages_from api cls sz 1 n) = take (nat maxr) (pages_from api cls sz 1 L)"
  proof (cases "n = L")
    case True
    then show ?thesis by simp
  next
    case False
    with stop L have "nat maxr \<le> length (pages_from api cls sz 1 n)" by auto
    from take_pages_prefix [OF nL this] show ?thesis by simp
  qed
  with run max show ?thesis
    by (simp add: fetch_artifacts_by_classification_def py_prefix_def)
qed

lemma fetch_returns:
  assumes "fetch_artifacts_by_classification api cls sz maxr = Some (r, log)"
  shows "\<exists>r'. fetch_loop api cls sz maxr [] 1 [] = Some (r', log)
           \<and> (\<forall>rs. r = Inr rs \<longrightarrow> (\<exists>rs'. r' = Inr rs' \<and> rs = py_prefix rs' maxr))"
  using assms
  by (auto simp: fetch_artifacts_by_classification_def split: option.splits sum.splits prod.splits)

lemma collection_end_unique:
  assumes "collection_ends_at api cls sz L" and "collection_ends_at api cls sz L'"
  shows "L = L'"
proof -
  have aux: "\<And>a b. collection_ends_at api cls sz a \<Longrightarrow> collection_ends_at api cls sz b \<Longrightarrow> \<not> a < b"
  proof
    fix a b assume a: "collection_ends_at api cls sz a" and b: "collection_ends_at api cls sz b"
      and "a < b"
    with a have "a \<in> set [1 ..< b]" by (simp add: collection_ends_at_def)
    with b have "has_next api cls sz a" by (simp add: collection_ends_at_def list_all_iff)
    moreover from a have "\<not> has_next api cls sz a"
      by (auto simp: collection_ends_at_def is_last_def has_next_def split: page_result.splits)
    ultimately show False by simp
  qed
  from aux [OF assms] aux [OF assms(2,1)] show ?thesis by simp
qed

lemma endless_has_next: "has_next endless_empty_pages cls sz k"
  by (simp add: has_next_def page_outcome_def read_page_def resp_json_def
      endless_empty_pages_def get_default_def)

lemma endless_pages_from: "pages_from endless_empty_pages cls sz p n = []"
  by (simp add: pages_from_def page_records_def page_outcome_def read_page_def resp_json_def
      endless_empty_pages_def get_default_def)

text \<open>
  Claim C2: for every classification, every endpoint and every bound
  \<open>max_records \<ge> 0\<close>, a list that \<open>fetch_artifacts_by_classification\<close> returns has at
  most \<open>max_records\<close> records and is the first \<open>max_records\<close> of the records of the
  pages it requested; when no transport error was reported it has exactly
  \<open>max_records\<close> records or all records of a collection that ended on the last
  requested page. When the endpoint delivers a finite collection of \<open>L\<close> pages, the
  fetch returns, and returns the first \<open>max_records\<close> records of the collection, that
  is \<open>min total_available max_records\<close> records.
\<close>

theorem fetch_bounds:
  assumes max: "0 \<le> maxr"
  shows "(\<forall>rs log. fetch_artifacts_by_classification api cls sz maxr = Some (Inr rs, log) \<longrightarrow>
            int (length rs) \<le> maxr
            \<and> rs = take (nat maxr) (pages_from api cls sz 1 (length (requests log)))
            \<and> ((\<forall>st. StError st \<notin> set log) \<longrightarrow>
                 int (length rs) = maxr
                 \<or> (collection_ends_at api cls sz (length (requests log))
                     \<and> rs = pages_from api cls sz 1 (length (requests log)))))
       \<and> (\<forall>L. collection_ends_at api cls sz L \<longrightarrow>
            (\<exists>rs log. fetch_artifacts_by_classification api cls sz maxr = Some (Inr rs, log)
               \<and> rs = take (nat maxr) (pages_from api cls sz 1 L)
               \<and> int (length rs) = min (int (total_available api cls sz L)) maxr))"
proof (intro conjI allI impI)
  fix rs log
  assume ret: "fetch_artifacts_by_classification api cls sz maxr = Some (Inr rs, log)"
  from fetch_returns [OF ret] obtain rs' where
    run: "fetch_loop api cls sz maxr [] 1 [] = Some (Inr rs', log)"
    and rs: "rs = py_prefix rs' maxr" by auto
  from loop_returns [OF run] obtain n where
    rq: "requests log = [1 ..< 1 + n]" and acc: "rs' = pages_from api cls sz 1 n"
    and quiet: "(\<forall>st. StError st \<notin> set log) \<longrightarrow>
                  maxr \<le> int (length rs')
                  \<or> (0 < n \<and> list_all (has_next api cls sz) [1 ..< 1 + n - 1]
                      \<and> is_last api cls sz (1 + n - 1))"
    unfolding loop_post_def requests_def by auto
  from rq have n: "length (requests log) = n" by simp
  from rs max have take: "rs = take (nat maxr) rs'" by (simp add: py_prefix_def)
  from take max show "int (length rs) \<le> maxr" by simp
  from take acc n show "rs = take (nat maxr) (pages_from api cls sz 1 (length (requests log)))"
    by simp
  assume "\<forall>st. StError st \<notin> set log"
  with quiet have "maxr \<le> int (length rs')
                  \<or> (0 < n \<and> list_all (has_next api cls sz) [1 ..< 1 + n - 1]
                      \<and> is_last api cls sz (1 + n - 1))" by simp
  then show "int (length rs) = maxr
                 \<or> (collection_ends_at api cls sz (length (requests log))
                     \<and> rs = pages_from api cls sz 1 (length (requests log)))"
  proof (cases "maxr \<le> int (length rs')")
    case True
    with take max show ?thesis by simp
  next
    case False
    moreover assume "maxr \<le> int (length rs')
                  \<or> (0 < n \<and> list_all (has_next api cls sz) [1 ..< 1 + n - 1]
                      \<and> is_last api cls sz (1 + n - 1))"
    ultimately have "collection_ends_at api cls sz n"
      by (simp add: collection_ends_at_def)
    moreover from False take have "rs = rs'" by simp
    ultimately show ?thesis using acc n by simp
  qed
next
  fix L assume coll: "collection_ends_at api cls sz L"
  from fetch_collection [OF max coll] obtain log where
    "fetch_artifacts_by_classification api cls sz maxr
       = Some (Inr (take (nat maxr) (pages_from api cls sz 1 L)), log)" by blast
  moreover have "int (length (take (nat maxr) (pages_from api cls sz 1 L)))
                   = min (int (total_available api cls sz L)) maxr"
    using max by (simp add: total_available_def)
  ultimately show "\<exists>rs log. fetch_artifacts_by_classification api cls sz maxr = Some (Inr rs, log)
               \<and> rs = take (nat maxr) (pages_from api cls sz 1 L)
               \<and> int (length rs) = min (int (total_available api cls sz L)) maxr"
    by blast
qed

text \<open>
  Claim C2 at the endpoint with three records on two pages and \<open>max_records = 2\<close>.
\<close>

theorem fetch_bounds_witness:
  "(0::int) \<le> 2 \<and> collection_ends_at two_pages ''Coins'' 100 2
   \<and> total_available two_pages ''Coins'' 100 2 = 3
   \<and> (\<exists>log. fetch_artifacts_by_classification two_pages ''Coins'' 100 2
          = Some (Inr [JObj [(''id'', JInt 1)], JObj [(''id'', JInt 2)]], log))"
proof -
  have m: "(0::int) \<le> 2" by simp
  have c: "collection_ends_at two_pages ''Coins'' 100 2" by code_simp
  have t: "total_available two_pages ''Coins'' 100 2 = 3" by code_simp
  have p: "take (nat 2) (pages_from two_pages ''Coins'' 100 1 2)
             = [JObj [(''id'', JInt 1)], JObj [(''id'', JInt 2)]]" by code_simp
  from fetch_bounds [OF m, of two_pages "''Coins''" 100] c
  obtain rs log where "fetch_artifacts_by_classification two_pages ''Coins'' 100 2 = Some (Inr rs, log)"
    and "rs = take (nat 2) (pages_from two_pages ''Coins'' 100 1 2)" by blast
  with p m c t show ?thesis by auto
qed

text \<open>
  Claim C5 says that the fetch terminates for every sequence of page responses. It does
  not: with \<open>size = 100\<close> and \<open>max_records = 1\<close>, an endpoint that answers every
  request with status 200, no records and a next-page indicator keeps the loop running;
  the fetch never returns.
\<close>

theorem fetch_may_not_terminate:
  "fetch_artifacts_by_classification endless_empty_pages ''Coins'' 100 1 = None"
proof (cases "fetch_loop endless_empty_pages ''Coins'' 100 1 [] 1 []")
  case None
  then show ?thesis by (simp add: fetch_artifacts_by_classification_def)
next
  case (Some y)
  from loop_returns [OF Some] have False
    unfolding loop_post_def by (simp add: endless_has_next endless_pages_from)
  then show ?thesis ..
qed

text \<open>
  Claim C5, amended: the fetch terminates exactly when \<open>max_records \<le> 0\<close> or there is a
  page \<open>k \<ge> 1\<close> at which pagination stops: the response to page \<open>k\<close> is not a page with
  a next-page indicator (its status is not 200, it lacks the indicator, or reading it
  raises an exception), or the records of pages 1 to \<open>k\<close> reach \<open>max_records\<close>.
\<close>

theorem fetch_terminates_iff:
  "(\<exists>y. fetch_artifacts_by_classification api cls sz maxr = Some y)
   \<longleftrightarrow> (maxr \<le> 0
        \<or> (\<exists>k\<ge>1. \<not> has_next api cls sz k
                  \<or> maxr \<le> int (length (pages_from api cls sz 1 k))))"
proof
  assume "\<exists>y. fetch_artifacts_by_classification api cls sz maxr = Some y"
  then obtain y where run: "fetch_loop api cls sz maxr [] 1 [] = Some y"
    by (auto simp: fetch_artifacts_by_classification_def split: option.splits)
  show "maxr \<le> 0 \<or> (\<exists>k\<ge>1. \<not> has_next api cls sz k
                  \<or> maxr \<le> int (length (pages_from api cls sz 1 k)))"
  proof (cases "maxr \<le> 0")
    case True
    then show ?thesis by simp
  next
    case False
    with loop_returns [OF run] obtain d where
      "\<not> has_next api cls sz (1 + d) \<or> maxr \<le> int (length (pages_from api cls sz 1 (Suc d)))"
      unfolding loop_post_def by auto
    then have "1 \<le> Suc d \<and> (\<not> has_next api cls sz (Suc d)
                 \<or> maxr \<le> int (length (pages_from api cls sz 1 (Suc d))))" by simp
    then show ?thesis by blast
  qed
next
  assume stop: "maxr \<le> 0 \<or> (\<exists>k\<ge>1. \<not> has_next api cls sz k
                  \<or> maxr \<le> int (length (pages_from api cls sz 1 k)))"
  have "\<exists>y. fetch_loop api cls sz maxr [] 1 [] = Some y"
  proof (cases "maxr \<le> 0")
    case True
    then show ?thesis by (simp add: loop_done)
  next
    case False
    with stop obtain k where k: "1 \<le> k"
      and "\<not> has_next api cls sz k \<or> maxr \<le> int (length (pages_from api cls sz 1 k))"
      by blast
    then have "\<not> has_next api cls sz (1 + (k - 1))
        \<or> maxr \<le> int (length ([] @ pages_from api cls sz 1 (Suc (k - 1))))" by simp
    then show ?thesis by (rule loop_terminates)
  qed
  then show "\<exists>y. fetch_artifacts_by_classification api cls sz maxr = Some y"
    by (auto simp: fetch_artifacts_by_classification_def split: sum.splits)
qed

text \<open>
  The amended claim C5 at the endpoint whose second page has no next-page indicator.
\<close>

theorem fetch_terminates_iff_witness:
  "(\<exists>y. fetch_artifacts_by_classification two_pages ''Coins'' 100 10 = Some y)
   \<and> (1::nat) \<le> 2 \<and> \<not> has_next two_pages ''Coins'' 100 2"
proof -
  have h: "\<not> has_next two_pages ''Coins'' 100 2" by code_simp
  then have "\<exists>k\<ge>1. \<not> has_next two_pages ''Coins'' 100 k
      \<or> 10 \<le> int (length (pages_from two_pages ''Coins'' 100 1 k))"
    by (intro exI [of _ 2]) simp
  with fetch_terminates_iff [of two_pages "''Coins''" 100 10] h show ?thesis by simp
qed

text \<open>
  Claim C6: when pages 1 to \<open>k - 1\<close> are pages with a next-page indicator whose records
  stay below \<open>max_records\<close>, and the request for page \<open>k\<close> has a status other than 200,
  the fetch requests pages 1 to \<open>k\<close> once each, reports the status, requests nothing
  more, and returns the records of pages 1 to \<open>k - 1\<close>, cut to \<open>max_records\<close> (which
  leaves them as they are).
\<close>

theorem fetch_stops_on_failure:
  assumes k: "0 < k"
    and earlier: "list_all (has_next api cls sz) [1 ..< k]"
    and below: "int (length (pages_from api cls sz 1 (k - 1))) < maxr"
    and failed: "status_code (api (mk_params cls sz k)) \<noteq> 200"
  shows "fetch_artifacts_by_classification api cls sz maxr
           = Some (Inr (py_prefix (pages_from api cls sz 1 (k - 1)) maxr),
                   map (\<lambda>j. HttpGet (mk_params cls sz j)) [1 ..< Suc k]
                   @ [StError (status_code (api (mk_params cls sz k)))])
         \<and> py_prefix (pages_from api cls sz 1 (k - 1)) maxr = pages_from api cls sz 1 (k - 1)"
proof -
  from k have k1: "1 + (k - 1) = k" by simp
  have out: "page_outcome api cls sz k = Failed (status_code (api (mk_params cls sz k)))"
    using failed by (simp add: page_outcome_def read_page_def)
  have small: "\<forall>m<k - 1. int (length ([] @ pages_from api cls sz 1 m)) < maxr"
  proof (intro allI impI)
    fix m assume "m < k - 1"
    then have "length (pages_from api cls sz 1 m) \<le> length (pages_from api cls sz 1 (k - 1))"
      by (intro length_pages_from_mono) simp
    with below show "int (length ([] @ pages_from api cls sz 1 m)) < maxr" by simp
  qed
  from earlier k1 have "list_all (has_next api cls sz) [1 ..< 1 + (k - 1)]" by simp
  from loop_advance [OF this small, of "[]"]
  have "fetch_loop api cls sz maxr [] 1 []
        = fetch_loop api cls sz maxr (pages_from api cls sz 1 (k - 1)) k
            (map (\<lambda>j. HttpGet (mk_params cls sz j)) [1 ..< k])"
    using k1 by simp
  also have "\<dots> = Some (Inr (pages_from api cls sz 1 (k - 1)),
                map (\<lambda>j. HttpGet (mk_params cls sz j)) [1 ..< k]
                @ [HttpGet (mk_params cls sz k), StError (status_code (api (mk_params cls sz k)))])"
    by (rule loop_failed [OF below out])
  finally have run: "fetch_loop api cls sz maxr [] 1 []
      = Some (Inr (pages_from api cls sz 1 (k - 1)),
                map (\<lambda>j. HttpGet (mk_params cls sz j)) [1 ..< Suc k]
                @ [StError (status_code (api (mk_params cls sz k)))])"
    using k by simp
  have pre: "py_prefix (pages_from api cls sz 1 (k - 1)) maxr = pages_from api cls sz 1 (k - 1)"
    using below by (simp add: py_prefix_def)
  from run pre show ?thesis
    by (simp add: fetch_artifacts_by_classification_def)
qed

text \<open>
  Claim C6 at the endpoint whose second page answers with status 500.
\<close>

theorem fetch_stops_on_failure_witness:
  "fetch_artifacts_by_classification failing_second ''Coins'' 100 10
     = Some (Inr [JObj [(''id'', JInt 1)], JObj [(''id'', JInt 2)]],
             [HttpGet (mk_params ''Coins'' 100 1), HttpGet (mk_params ''Coins'' 100 2),
              StError 500])"
proof -
  have k: "(0::nat) < 2" by simp
  have e: "list_all (has_next failing_second ''Coins'' 100) [1 ..< 2]" by code_simp
  have p: "pages_from failing_second ''Coins'' 100 1 (2 - 1)
             = [JObj [(''id'', JInt 1)], JObj [(''id'', JInt 2)]]" by code_simp
  have b: "int (length (pages_from failing_second ''Coins'' 100 1 (2 - 1))) < 10"
    unfolding p by simp
  have f: "status_code (failing_second (mk_params ''Coins'' 100 2)) \<noteq> 200" by code_simp
  have s: "status_code (failing_second (mk_params ''Coins'' 100 2)) = 500" by code_simp
  have u: "[1 ..< Suc 2] = [1, 2]" by code_simp
  from fetch_stops_on_failure [OF k e b f] show ?thesis
    unfolding p s u by simp
qed

text \<open>
  Claim C7: with \<open>max_records = 0\<close> the fetch returns the empty list and sends no
  request, whatever the classification, the page size and the endpoint.
\<close>

theorem fetch_zero:
  "fetch_artifacts_by_classification api cls sz 0 = Some (Inr [], [])"
  by (simp add: fetch_artifacts_by_classification_def loop_done py_prefix_def)

section \<open>Properties of the Loader\<close>

lemma exec_rows_append:
  "exec_rows step tbl (xs @ ys)
     = (case exec_rows step tbl xs of Inl e \<Rightarrow> Inl e | Inr t \<Rightarrow> exec_rows step t ys)"
  by (induction xs arbitrary: tbl) (auto split: sum.splits)

lemma bind_all_bindable:
  "list_all bindable vs \<Longrightarrow> \<exists>xs. bind_all vs = Inr xs \<and> length xs = length vs"
proof (induction vs)
  case Nil
  then show ?case by simp
next
  case (Cons v vs)
  then obtain x xs where "bind v = Inr x" and "bind_all vs = Inr xs" and "length xs = length vs"
    by (auto simp: bindable_def split: sum.splits)
  then show ?case by simp
qed

lemma fits_bindable: "fits aff v \<Longrightarrow> bindable v"
  by (cases "(aff, v)" rule: fits.cases) (simp_all add: bindable_def)

lemma fits_stored:
  "fits aff v \<Longrightarrow> \<exists>x. bind v = Inr x \<and> to_py (apply_affinity eng aff x) = v"
  by (cases aff; cases v) simp_all

lemma bind_all_fits:
  "list_all2 fits affs vs \<Longrightarrow>
   \<exists>xs. bind_all vs = Inr xs \<and> map to_py (stored_row eng affs xs) = vs"
proof (induction affs vs rule: list_all2_induct)
  case Nil
  then show ?case by (simp add: stored_row_def)
next
  case (Cons aff affs v vs)
  from fits_stored [OF Cons.hyps(1), of eng]
  obtain x where x: "bind v = Inr x" "to_py (apply_affinity eng aff x) = v" by blast
  from Cons.IH obtain xs where xs: "bind_all vs = Inr xs"
    "map to_py (stored_row eng affs xs) = vs" by blast
  from x xs show ?case by (simp add: stored_row_def)
qed

lemma int_key_Some: "int_key v = Some i \<Longrightarrow> v = JInt i \<and> int64 i"
  by (cases v) (auto split: if_splits)

lemma metadata_values_Cons:
  "row_values metadata_columns r = py_get r ''id'' # row_values (tl metadata_columns) r"
  by (simp add: row_values_def metadata_columns_def)

lemma metadata_affinities_Cons:
  "metadata_affinities = AffInteger # tl metadata_affinities"
  by (simp add: metadata_affinities_def)

lemma keyed_insert:
  assumes key: "int_key (py_get r ''id'') = Some i"
    and bound: "bind_all (row_values metadata_columns r) = Inr xs"
  shows "\<exists>rest. stored_row eng metadata_affinities xs = SInt i # rest
           \<and> (\<forall>tbl. insert_metadata_row eng tbl r
                 = Inr (if i \<in> set (map fst tbl) then tbl else tbl @ [(i, rest)]))"
proof -
  from int_key_Some [OF key] have id: "py_get r ''id'' = JInt i" and i: "int64 i" by simp_all
  from bound obtain ys where xs: "xs = SInt i # ys"
    unfolding metadata_values_Cons id using i by (auto split: sum.splits)
  have st: "stored_row eng metadata_affinities xs
              = SInt i # stored_row eng (tl metadata_affinities) ys"
    unfolding xs by (subst metadata_affinities_Cons) (simp add: stored_row_def)
  show ?thesis
    by (intro exI [of _ "stored_row eng (tl metadata_affinities) ys"])
       (simp add: st insert_metadata_row_def bound)
qed

lemma keyed_row_insert:
  assumes "keyed_row r"
  shows "\<exists>i rest. int_key (py_get r ''id'') = Some i
           \<and> (\<forall>tbl. insert_metadata_row eng tbl r
                 = Inr (if i \<in> set (map fst tbl) then tbl else tbl @ [(i, rest)]))"
proof -
  from assms obtain i where key: "int_key (py_get r ''id'') = Some i"
    and b: "list_all bindable (row_values metadata_columns r)"
    by (auto simp: keyed_row_def)
  from bind_all_bindable [OF b] obtain xs where
    "bind_all (row_values metadata_columns r) = Inr xs" by blast
  from keyed_insert [OF key this, of eng] key show ?thesis by blast
qed

lemma exec_keyed_rows:
  "list_all keyed_row rows \<Longrightarrow> distinct (map fst tbl) \<Longrightarrow>
   \<exists>tbl' added. exec_rows (insert_metadata_row eng) tbl rows = Inr tbl'
      \<and> tbl' = tbl @ added \<and> distinct (map fst tbl')
      \<and> (\<forall>r\<in>set rows. \<forall>i. int_key (py_get r ''id'') = Some i \<longrightarrow> i \<in> set (map fst tbl'))"
proof (induction rows arbitrary: tbl)
  case Nil
  then show ?case by simp
next
  case (Cons r rows)
  from Cons.prems(1) have kr: "keyed_row r" and rest: "list_all keyed_row rows" by simp_all
  from keyed_row_insert [OF kr, of eng] obtain i rest_vals where
    key: "int_key (py_get r ''id'') = Some i"
    and ins: "insert_metadata_row eng tbl r
                = Inr (if i \<in> set (map fst tbl) then tbl else tbl @ [(i, rest_vals)])"
    by blast
  define t1 where "t1 = (if i \<in> set (map fst tbl) then tbl else tbl @ [(i, rest_vals)])"
  have d1: "distinct (map fst t1)" using Cons.prems(2) by (simp add: t1_def)
  have i1: "i \<in> set (map fst t1)" by (simp add: t1_def)
  obtain a1 where a1: "t1 = tbl @ a1"
    by (cases "i \<in> set (map fst tbl)") (simp_all add: t1_def)
  from Cons.IH [OF rest d1] obtain tbl' added where
    run: "exec_rows (insert_metadata_row eng) t1 rows = Inr tbl'"
    and app: "tbl' = t1 @ added" and dist: "distinct (map fst tbl')"
    and keys: "\<forall>r\<in>set rows. \<forall>i. int_key (py_get r ''id'') = Some i \<longrightarrow> i \<in> set (map fst tbl')"
    by blast
  have "exec_rows (insert_metadata_row eng) tbl (r # rows) = Inr tbl'"
    using ins run by (simp add: t1_def)
  moreover have "tbl' = tbl @ (a1 @ added)" using app a1 by simp
  moreover have "\<forall>r'\<in>set (r # rows). \<forall>j. int_key (py_get r' ''id'') = Some j
                   \<longrightarrow> j \<in> set (map fst tbl')"
    using keys key i1 app by auto
  ultimately show ?case using dist by blast
qed

lemma exec_present_rows:
  "list_all keyed_row rows \<Longrightarrow>
   \<forall>r\<in>set rows. \<forall>i. int_key (py_get r ''id'') = Some i \<longrightarrow> i \<in> set (map fst tbl) \<Longrightarrow>
   exec_rows (insert_metadata_row eng) tbl rows = Inr tbl"
proof (induction rows)
  case Nil
  then show ?case by simp
next
  case (Cons r rows)
  from Cons.prems(1) have kr: "keyed_row r" and rest: "list_all keyed_row rows" by simp_all
  from keyed_row_insert [OF kr, of eng] obtain i rest_vals where
    key: "int_key (py_get r ''id'') = Some i"
    and ins: "insert_metadata_row eng tbl r
                = Inr (if i \<in> set (map fst tbl) then tbl else tbl @ [(i, rest_vals)])"
    by blast
  from Cons.prems(2) key have "i \<in> set (map fst tbl)" by simp
  with ins have "insert_metadata_row eng tbl r = Inr tbl" by simp
  moreover from Cons.IH [OF rest] Cons.prems(2)
  have "exec_rows (insert_metadata_row eng) tbl rows = Inr tbl" by simp
  ultimately show ?case by simp
qed

lemma one_row_per_key:
  "distinct (map fst tbl) \<Longrightarrow> i \<in> set (map fst tbl) \<Longrightarrow>
   length (filter (\<lambda>row. fst row = i) tbl) = 1"
proof (induction tbl)
  case Nil
  then show ?case by simp
next
  case (Cons row tbl)
  show ?case
  proof (cases "fst row = i")
    case True
    with Cons.prems(1) have "i \<notin> fst ` set tbl" by auto
    then have "filter (\<lambda>row. fst row = i) tbl = []"
      by (auto simp: filter_empty_conv)
    with True show ?thesis by simp
  next
    case False
    with Cons show ?thesis by auto
  qed
qed

lemma exec_plain_rows:
  "list_all (bindable_row cols) rows \<Longrightarrow>
   exec_rows (insert_plain_row eng cols affs) tbl rows
     = Inr (tbl @ map (stored_form eng cols affs) rows)"
proof (induction rows arbitrary: tbl)
  case Nil
  then show ?case by simp
next
  case (Cons r rows)
  from Cons.prems have br: "bindable_row cols r"
    and rest: "list_all (bindable_row cols) rows"
    by simp_all
  from br have b: "list_all bindable (row_values cols r)"
    by (simp add: bindable_row_def)
  from bind_all_bindable [OF b] obtain xs where xs: "bind_all (row_values cols r) = Inr xs"
    by blast
  have "insert_plain_row eng cols affs tbl r = Inr (tbl @ [stored_form eng cols affs r])"
    by (simp add: insert_plain_row_def stored_form_def xs)
  with Cons.IH [OF rest, of "tbl @ [stored_form eng cols affs r]"] show ?case by simp
qed

lemma copies_app: "copies (xs @ ys) s = copies xs s + copies ys s"
  by (simp add: copies_def)

lemma length_stored_form:
  assumes "bindable_row cols r" and "length affs = length cols"
  shows "length (stored_form eng cols affs r) = length cols"
proof -
  from assms(1) have "list_all bindable (row_values cols r)" by (simp add: bindable_row_def)
  from bind_all_bindable [OF this] obtain xs where "bind_all (row_values cols r) = Inr xs"
    and "length xs = length (row_values cols r)" by blast
  with assms(2) show ?thesis
    by (simp add: stored_form_def stored_row_def row_values_def)
qed

lemma stored_form_typed:
  assumes "typed_row cols affs r"
  shows "map to_py (stored_form eng cols affs r) = row_values cols r"
proof -
  from bind_all_fits [OF assms [unfolded typed_row_def], of eng] obtain xs where
    "bind_all (row_values cols r) = Inr xs"
    and "map to_py (stored_row eng affs xs) = row_values cols r" by blast
  then show ?thesis by (simp add: stored_form_def)
qed

lemma plain_load_twice:
  assumes "list_all (bindable_row cols) rows"
  shows "exec_rows (insert_plain_row eng cols affs) tbl rows
           = Inr (tbl @ map (stored_form eng cols affs) rows)
       \<and> exec_rows (insert_plain_row eng cols affs)
            (tbl @ map (stored_form eng cols affs) rows) rows
           = Inr (tbl @ map (stored_form eng cols affs) rows
                      @ map (stored_form eng cols affs) rows)"
  using exec_plain_rows [OF assms, of eng affs tbl]
    exec_plain_rows [OF assms, of eng affs "tbl @ map (stored_form eng cols affs) rows"]
  by simp

text \<open>
  A REAL column gives negative zero back as positive zero: the colour row is stored with
  \<open>percent = 0.0\<close>.
\<close>

lemma negative_zero_percent:
  "stored_form eng color_columns color_affinities
     [(''objectid'', JInt 42), (''percent'', JFloat 0x8000000000000000)]
     = [SInt 42, SNull, SNull, SNull, SReal 0, SNull]"
  by (simp add: stored_form_def stored_row_def row_values_def color_columns_def
      color_affinities_def py_get_def get_default_def int64_def is_nan_def)

lemma exec_rows_fails:
  "exec_rows step tbl pre = Inr t \<Longrightarrow> step t r = Inl e \<Longrightarrow>
   exec_rows step tbl (pre @ r # post) = Inl e"
  by (simp add: exec_rows_append)

text \<open>
  A row without an id is stored under a fresh row id each time it is loaded; the
  properties below are about rows with an integer id.
\<close>

lemma null_key_rows_accumulate:
  "insert_metadata eng empty_db [[(''title'', JStr ''Untitled'')]]
     = (None, empty_db\<lparr>artifact_metadata :=
          [(1, [SText ''Untitled'', SNull, SNull, SNull, SNull, SNull, SNull, SNull, SNull,
                SNull, SNull])]\<rparr>)
   \<and> insert_metadata eng
        (empty_db\<lparr>artifact_metadata :=
          [(1, [SText ''Untitled'', SNull, SNull, SNull, SNull, SNull, SNull, SNull, SNull,
                SNull, SNull])]\<rparr>)
        [[(''title'', JStr ''Untitled'')]]
     = (None, empty_db\<lparr>artifact_metadata :=
          [(1, [SText ''Untitled'', SNull, SNull, SNull, SNull, SNull, SNull, SNull, SNull,
                SNull, SNull]),
           (2, [SText ''Untitled'', SNull, SNull, SNull, SNull, SNull, SNull, SNull, SNull,
                SNull, SNull])]\<rparr>)"
  by (simp add: insert_metadata_def with_connection_def insert_metadata_row_def empty_db_def
      row_values_def metadata_columns_def metadata_affinities_def stored_row_def py_get_def
      get_default_def new_rowid_def)

text \<open>
  Claim C3: for every store in which no metadata key occurs twice and every batch of
  metadata rows with an integer id and values the driver can bind, loading the batch
  succeeds, loading it again succeeds and leaves the store as it is, the rows that were
  in the table before are still there unchanged with the new rows after them, and for
  every row of the batch the table holds exactly one row with its id.
\<close>

theorem insert_metadata_idempotent:
  assumes uniq: "unique_keys d" and keyed: "list_all keyed_row rows"
  shows "\<exists>d1 added. insert_metadata eng d rows = (None, d1)
           \<and> insert_metadata eng d1 rows = (None, d1)
           \<and> artifact_metadata d1 = artifact_metadata d @ added
           \<and> unique_keys d1
           \<and> (\<forall>r\<in>set rows. \<forall>i. int_key (py_get r ''id'') = Some i \<longrightarrow> rows_with_id d1 i = 1)"
proof -
  from uniq have "distinct (map fst (artifact_metadata d))" by (simp add: unique_keys_def)
  from exec_keyed_rows [OF keyed this, of eng] obtain tbl' added where
    run: "exec_rows (insert_metadata_row eng) (artifact_metadata d) rows = Inr tbl'"
    and app: "tbl' = artifact_metadata d @ added" and dist: "distinct (map fst tbl')"
    and keys: "\<forall>r\<in>set rows. \<forall>i. int_key (py_get r ''id'') = Some i \<longrightarrow> i \<in> set (map fst tbl')"
    by blast
  define d1 where "d1 = d\<lparr>artifact_metadata := tbl'\<rparr>"
  have first: "insert_metadata eng d rows = (None, d1)"
    by (simp add: insert_metadata_def with_connection_def run d1_def)
  have "exec_rows (insert_metadata_row eng) (artifact_metadata d1) rows = Inr (artifact_metadata d1)"
    using exec_present_rows [OF keyed keys] by (simp add: d1_def)
  then have second: "insert_metadata eng d1 rows = (None, d1)"
    by (simp add: insert_metadata_def with_connection_def d1_def)
  have once: "\<forall>r\<in>set rows. \<forall>i. int_key (py_get r ''id'') = Some i \<longrightarrow> rows_with_id d1 i = 1"
    using keys one_row_per_key [OF dist] by (simp add: rows_with_id_def d1_def)
  from first second app dist once show ?thesis
    by (intro exI [of _ d1] exI [of _ added]) (simp add: d1_def unique_keys_def)
qed

text \<open>
  Claim C3 at a batch in which the same row occurs twice, loaded into the empty store.
\<close>

theorem insert_metadata_idempotent_witness:
  "\<forall>eng. unique_keys empty_db \<and> list_all keyed_row [coin_row, vase_row, coin_row]
     \<and> (\<exists>d1 added. insert_metadata eng empty_db [coin_row, vase_row, coin_row] = (None, d1)
           \<and> insert_metadata eng d1 [coin_row, vase_row, coin_row] = (None, d1)
           \<and> artifact_metadata d1 = artifact_metadata empty_db @ added
           \<and> rows_with_id d1 42 = 1 \<and> rows_with_id d1 7 = 1)"
proof
  fix eng
  have u: "unique_keys empty_db" by (simp add: unique_keys_def empty_db_def)
  have k: "list_all keyed_row [coin_row, vase_row, coin_row]"
    by (simp add: keyed_row_def coin_row_def vase_row_def row_values_def metadata_columns_def
        py_get_def get_default_def bindable_def int64_def)
  have k1: "int_key (py_get coin_row ''id'') = Some 42"
    by (simp add: coin_row_def py_get_def get_default_def int64_def)
  have k2: "int_key (py_get vase_row ''id'') = Some 7"
    by (simp add: vase_row_def py_get_def get_default_def int64_def)
  from insert_metadata_idempotent [OF u k, of eng] k1 k2 u k
  show "unique_keys empty_db \<and> list_all keyed_row [coin_row, vase_row, coin_row]
     \<and> (\<exists>d1 added. insert_metadata eng empty_db [coin_row, vase_row, coin_row] = (None, d1)
           \<and> insert_metadata eng d1 [coin_row, vase_row, coin_row] = (None, d1)
           \<and> artifact_metadata d1 = artifact_metadata empty_db @ added
           \<and> rows_with_id d1 42 = 1 \<and> rows_with_id d1 7 = 1)"
    by fastforce
qed

text \<open>
  Claim C4: for every store and every batch of media rows (and every batch of colour
  rows) whose values the driver can bind, loading the batch succeeds and appends, for
  each row dictionary in order, the row the table stores for it; loading the batch
  again succeeds and appends the same stored rows once more, so that the table holds at
  least two more copies of the stored row of every row of the batch (exactly two more
  for a row that occurs once in the batch); the other two tables are left as they are.
  The stored row has one value per column, and for a row whose values are null or of
  the type of their column it reads back as the values of the row dictionary.
\<close>

theorem plain_rows_duplicate:
  "(list_all (bindable_row media_columns) rows \<longrightarrow>
      (\<exists>d1 d2. insert_media eng d rows = (None, d1) \<and> insert_media eng d1 rows = (None, d2)
         \<and> artifact_media d1
             = artifact_media d @ map (stored_form eng media_columns media_affinities) rows
         \<and> artifact_media d2
             = artifact_media d @ map (stored_form eng media_columns media_affinities) rows
                 @ map (stored_form eng media_columns media_affinities) rows
         \<and> artifact_metadata d2 = artifact_metadata d \<and> artifact_colors d2 = artifact_colors d
         \<and> (\<forall>s. copies (artifact_media d2) s
                  = copies (artifact_media d) s
                    + 2 * copies (map (stored_form eng media_columns media_affinities) rows) s)
         \<and> (\<forall>r\<in>set rows.
               length (stored_form eng media_columns media_affinities r) = 7
               \<and> copies (artifact_media d2) (stored_form eng media_columns media_affinities r)
                   \<ge> copies (artifact_media d)
                        (stored_form eng media_columns media_affinities r) + 2
               \<and> (typed_row media_columns media_affinities r \<longrightarrow>
                    map to_py (stored_form eng media_columns media_affinities r)
                      = row_values media_columns r))))
   \<and> (list_all (bindable_row color_columns) crows \<longrightarrow>
      (\<exists>d1 d2. insert_colors eng d crows = (None, d1) \<and> insert_colors eng d1 crows = (None, d2)
         \<and> artifact_colors d1
             = artifact_colors d @ map (stored_form eng color_columns color_affinities) crows
         \<and> artifact_colors d2
             = artifact_colors d @ map (stored_form eng color_columns color_affinities) crows
                 @ map (stored_form eng color_columns color_affinities) crows
         \<and> artifact_metadata d2 = artifact_metadata d \<and> artifact_media d2 = artifact_media d
         \<and> (\<forall>s. copies (artifact_colors d2) s
                  = copies (artifact_colors d) s
                    + 2 * copies (map (stored_form eng color_columns color_affinities) crows) s)
         \<and> (\<forall>r\<in>set crows.
               length (stored_form eng color_columns color_affinities r) = 6
               \<and> copies (artifact_colors d2) (stored_form eng color_columns color_affinities r)
                   \<ge> copies (artifact_colors d)
                        (stored_form eng color_columns color_affinities r) + 2
               \<and> (typed_row color_columns color_affinities r \<longrightarrow>
                    map to_py (stored_form eng color_columns color_affinities r)
                      = row_values color_columns r))))"
proof (intro conjI impI)
  assume b: "list_all (bindable_row media_columns) rows"
  define sf where "sf = stored_form eng media_columns media_affinities"
  define new where "new = map sf rows"
  define d1 where "d1 = d\<lparr>artifact_media := artifact_media d @ new\<rparr>"
  define d2 where "d2 = d\<lparr>artifact_media := artifact_media d @ new @ new\<rparr>"
  from plain_load_twice [OF b, of eng media_affinities "artifact_media d"]
  have run1: "exec_rows (insert_plain_row eng media_columns media_affinities) (artifact_media d) rows
                = Inr (artifact_media d @ new)"
    and run2: "exec_rows (insert_plain_row eng media_columns media_affinities)
                 (artifact_media d @ new) rows = Inr (artifact_media d @ new @ new)"
    by (simp_all add: new_def sf_def)
  have first: "insert_media eng d rows = (None, d1)"
    by (simp add: insert_media_def with_connection_def run1 d1_def)
  have second: "insert_media eng d1 rows = (None, d2)"
    by (simp add: insert_media_def with_connection_def run2 d1_def d2_def)
  have count: "\<forall>s. copies (artifact_media d2) s = copies (artifact_media d) s + 2 * copies new s"
    by (simp add: d2_def copies_app)
  have each: "\<forall>r\<in>set rows. length (sf r) = 7
                \<and> copies (artifact_media d2) (sf r) \<ge> copies (artifact_media d) (sf r) + 2
                \<and> (typed_row media_columns media_affinities r \<longrightarrow>
                     map to_py (sf r) = row_values media_columns r)"
  proof
    fix r assume r: "r \<in> set rows"
    with b have br: "bindable_row media_columns r" by (simp add: list_all_iff)
    have len: "length (sf r) = 7"
      using length_stored_form [OF br, of media_affinities eng]
      by (simp add: sf_def media_affinities_def media_columns_def)
    from r have "sf r \<in> set new" by (simp add: new_def)
    then have "filter (\<lambda>x. x = sf r) new \<noteq> []" by (auto simp: filter_empty_conv)
    then have "1 \<le> copies new (sf r)" by (cases "filter (\<lambda>x. x = sf r) new") (simp_all add: copies_def)
    with count have two: "copies (artifact_media d2) (sf r) \<ge> copies (artifact_media d) (sf r) + 2"
      by simp
    have typed: "typed_row media_columns media_affinities r \<longrightarrow>
                   map to_py (sf r) = row_values media_columns r"
      by (simp add: sf_def stored_form_typed)
    from len two typed show "length (sf r) = 7
                \<and> copies (artifact_media d2) (sf r) \<ge> copies (artifact_media d) (sf r) + 2
                \<and> (typed_row media_columns media_affinities r \<longrightarrow>
                     map to_py (sf r) = row_values media_columns r)" by simp
  qed
  have tables: "artifact_media d1 = artifact_media d @ new"
    "artifact_media d2 = artifact_media d @ new @ new"
    "artifact_metadata d2 = artifact_metadata d" "artifact_colors d2 = artifact_colors d"
    by (simp_all add: d1_def d2_def)
  from first second tables count each
  show "\<exists>d1 d2. insert_media eng d rows = (None, d1) \<and> insert_media eng d1 rows = (None, d2)
         \<and> artifact_media d1
             = artifact_media d @ map (stored_form eng media_columns media_affinities) rows
         \<and> artifact_media d2
             = artifact_media d @ map (stored_form eng media_columns media_affinities) rows
                 @ map (stored_form eng media_columns media_affinities) rows
         \<and> artifact_metadata d2 = artifact_metadata d \<and> artifact_colors d2 = artifact_colors d
         \<and> (\<forall>s. copies (artifact_media d2) s
                  = copies (artifact_media d) s
                    + 2 * copies (map (stored_form eng media_columns media_affinities) rows) s)
         \<and> (\<forall>r\<in>set rows.
               length (stored_form eng media_columns media_affinities r) = 7
               \<and> copies (artifact_media d2) (stored_form eng media_columns media_affinities r)
                   \<ge> copies (artifact_media d)
                        (stored_form eng media_columns media_affinities r) + 2
               \<and> (typed_row media_columns media_affinities r \<longrightarrow>
                    map to_py (stored_form eng media_columns media_affinities r)
                      = row_values media_columns r))"
    unfolding new_def sf_def by (intro exI [of _ d1] exI [of _ d2]) simp
next
  assume b: "list_all (bindable_row color_columns) crows"
  define sf where "sf = stored_form eng color_columns color_affinities"
  define new where "new = map sf crows"
  define d1 where "d1 = d\<lparr>artifact_colors := artifact_colors d @ new\<rparr>"
  define d2 where "d2 = d\<lparr>artifact_colors := artifact_colors d @ new @ new\<rparr>"
  from plain_load_twice [OF b, of eng color_affinities "artifact_colors d"]
  have run1: "exec_rows (insert_plain_row eng color_columns color_affinities) (artifact_colors d)
                crows = Inr (artifact_colors d @ new)"
    and run2: "exec_rows (insert_plain_row eng color_columns color_affinities)
                 (artifact_colors d @ new) crows = Inr (artifact_colors d @ new @ new)"
    by (simp_all add: new_def sf_def)
  have first: "insert_colors eng d crows = (None, d1)"
    by (simp add: insert_colors_def with_connection_def run1 d1_def)
  have second: "insert_colors eng d1 crows = (None, d2)"
    by (simp add: insert_colors_def with_connection_def run2 d1_def d2_def)
  have count: "\<forall>s. copies (artifact_colors d2) s = copies (artifact_colors d) s + 2 * copies new s"
    by (simp add: d2_def copies_app)
  have each: "\<forall>r\<in>set crows. length (sf r) = 6
                \<and> copies (artifact_colors d2) (sf r) \<ge> copies (artifact_colors d) (sf r) + 2
                \<and> (typed_row color_columns color_affinities r \<longrightarrow>
                     map to_py (sf r) = row_values color_columns r)"
  proof
    fix r assume r: "r \<in> set crows"
    with b have br: "bindable_row color_columns r" by (simp add: list_all_iff)
    have len: "length (sf r) = 6"
      using length_stored_form [OF br, of color_affinities eng]
      by (simp add: sf_def color_affinities_def color_columns_def)
    from r have "sf r \<in> set new" by (simp add: new_def)
    then have "filter (\<lambda>x. x = sf r) new \<noteq> []" by (auto simp: filter_empty_conv)
    then have "1 \<le> copies new (sf r)" by (cases "filter (\<lambda>x. x = sf r) new") (simp_all add: copies_def)
    with count have two: "copies (artifact_colors d2) (sf r) \<ge> copies (artifact_colors d) (sf r) + 2"
      by simp
    have typed: "typed_row color_columns color_affinities r \<longrightarrow>
                   map to_py (sf r) = row_values color_columns r"
      by (simp add: sf_def stored_form_typed)
    from len two typed show "length (sf r) = 6
                \<and> copies (artifact_colors d2) (sf r) \<ge> copies (artifact_colors d) (sf r) + 2
                \<and> (typed_row color_columns color_affinities r \<longrightarrow>
                     map to_py (sf r) = row_values color_columns r)" by simp
  qed
  have tables: "artifact_colors d1 = artifact_colors d @ new"
    "artifact_colors d2 = artifact_colors d @ new @ new"
    "artifact_metadata d2 = artifact_metadata d" "artifact_media d2 = artifact_media d"
    by (simp_all add: d1_def d2_def)
  from first second tables count each
  show "\<exists>d1 d2. insert_colors eng d crows = (None, d1) \<and> insert_colors eng d1 crows = (None, d2)
         \<and> artifact_colors d1
             = artifact_colors d @ map (stored_form eng color_columns color_affinities) crows
         \<and> artifact_colors d2
             = artifact_colors d @ map (stored_form eng color_columns color_affinities) crows
                 @ map (stored_form eng color_columns color_affinities) crows
         \<and> artifact_metadata d2 = artifact_metadata d \<and> artifact_media d2 = artifact_media d
         \<and> (\<forall>s. copies (artifact_colors d2) s
                  = copies (artifact_colors d) s
                    + 2 * copies (map (stored_form eng color_columns color_affinities) crows) s)
         \<and> (\<forall>r\<in>set crows.
               length (stored_form eng color_columns color_affinities r) = 6
               \<and> copies (artifact_colors d2) (stored_form eng color_columns color_affinities r)
                   \<ge> copies (artifact_colors d)
                        (stored_form eng color_columns color_affinities r) + 2
               \<and> (typed_row color_columns color_affinities r \<longrightarrow>
                    map to_py (stored_form eng color_columns color_affinities r)
                      = row_values color_columns r))"
    unfolding new_def sf_def by (intro exI [of _ d1] exI [of _ d2]) simp
qed

text \<open>
  Claim C4 at a batch of two media rows and at one colour row, loaded twice into the
  empty store: the stored rows are the values of the dictionaries, each twice.
\<close>

theorem plain_rows_duplicate_witness:
  "\<forall>eng. list_all (bindable_row media_columns) [coin_media, vase_media]
     \<and> list_all (bindable_row color_columns) [coin_color]
     \<and> (\<exists>d1 d2. insert_media eng empty_db [coin_media, vase_media] = (None, d1)
           \<and> insert_media eng d1 [coin_media, vase_media] = (None, d2)
           \<and> artifact_media d2
               = [[SInt 42, SInt 3, SNull, SNull, SNull, SNull, SNull],
                  [SInt 7, SNull, SNull, SNull, SInt 12, SNull, SNull],
                  [SInt 42, SInt 3, SNull, SNull, SNull, SNull, SNull],
                  [SInt 7, SNull, SNull, SNull, SInt 12, SNull, SNull]]
           \<and> copies (artifact_media d2) [SInt 42, SInt 3, SNull, SNull, SNull, SNull, SNull] = 2)
     \<and> (\<exists>d1 d2. insert_colors eng empty_db [coin_color] = (None, d1)
           \<and> insert_colors eng d1 [coin_color] = (None, d2)
           \<and> artifact_colors d2
               = [[SInt 42, SText ''Red'', SNull, SNull, SReal 0x3FE0000000000000, SNull],
                  [SInt 42, SText ''Red'', SNull, SNull, SReal 0x3FE0000000000000, SNull]]
           \<and> map (map to_py) (artifact_colors d2)
               = [row_values color_columns coin_color, row_values color_columns coin_color])"
proof
  fix eng
  have m: "list_all (bindable_row media_columns) [coin_media, vase_media]"
    by (simp add: bindable_row_def coin_media_def vase_media_def row_values_def
        media_columns_def py_get_def get_default_def bindable_def int64_def)
  have c: "list_all (bindable_row color_columns) [coin_color]"
    by (simp add: bindable_row_def coin_color_def row_values_def color_columns_def py_get_def
        get_default_def bindable_def int64_def)
  have e: "artifact_media empty_db = []" "artifact_colors empty_db = []"
    by (simp_all add: empty_db_def)
  have s1: "stored_form eng media_columns media_affinities coin_media
              = [SInt 42, SInt 3, SNull, SNull, SNull, SNull, SNull]"
    by (simp add: stored_form_def stored_row_def row_values_def media_columns_def
        media_affinities_def coin_media_def py_get_def get_default_def int64_def)
  have s2: "stored_form eng media_columns media_affinities vase_media
              = [SInt 7, SNull, SNull, SNull, SInt 12, SNull, SNull]"
    by (simp add: stored_form_def stored_row_def row_values_def media_columns_def
        media_affinities_def vase_media_def py_get_def get_default_def int64_def)
  have s3: "stored_form eng color_columns color_affinities coin_color
              = [SInt 42, SText ''Red'', SNull, SNull, SReal 0x3FE0000000000000, SNull]"
    by (simp add: stored_form_def stored_row_def row_values_def color_columns_def
        color_affinities_def coin_color_def py_get_def get_default_def int64_def is_nan_def)
  have v: "row_values color_columns coin_color
             = [JInt 42, JStr ''Red'', JNull, JNull, JFloat 0x3FE0000000000000, JNull]"
    by (simp add: row_values_def color_columns_def coin_color_def py_get_def get_default_def)
  from plain_rows_duplicate [of "[coin_media, vase_media]" eng empty_db "[coin_color]"] m c
  obtain d1 d2 c1 c2 where
    a: "insert_media eng empty_db [coin_media, vase_media] = (None, d1)"
       "insert_media eng d1 [coin_media, vase_media] = (None, d2)"
       "artifact_media d2
             = artifact_media empty_db
               @ map (stored_form eng media_columns media_affinities) [coin_media, vase_media]
               @ map (stored_form eng media_columns media_affinities) [coin_media, vase_media]"
    and b: "insert_colors eng empty_db [coin_color] = (None, c1)"
       "insert_colors eng c1 [coin_color] = (None, c2)"
       "artifact_colors c2
             = artifact_colors empty_db
               @ map (stored_form eng color_columns color_affinities) [coin_color]
               @ map (stored_form eng color_columns color_affinities) [coin_color]"
    by blast
  from a(3) have a3: "artifact_media d2
               = [[SInt 42, SInt 3, SNull, SNull, SNull, SNull, SNull],
                  [SInt 7, SNull, SNull, SNull, SInt 12, SNull, SNull],
                  [SInt 42, SInt 3, SNull, SNull, SNull, SNull, SNull],
                  [SInt 7, SNull, SNull, SNull, SInt 12, SNull, SNull]]"
    by (simp add: e s1 s2)
  from b(3) have b3: "artifact_colors c2
               = [[SInt 42, SText ''Red'', SNull, SNull, SReal 0x3FE0000000000000, SNull],
                  [SInt 42, SText ''Red'', SNull, SNull, SReal 0x3FE0000000000000, SNull]]"
    by (simp add: e s3)
  have a4: "copies (artifact_media d2) [SInt 42, SInt 3, SNull, SNull, SNull, SNull, SNull] = 2"
    unfolding a3 by (simp add: copies_def)
  have b4: "map (map to_py) (artifact_colors c2)
               = [row_values color_columns coin_color, row_values color_columns coin_color]"
    unfolding b3 v by simp
  have A: "\<exists>d1 d2. insert_media eng empty_db [coin_media, vase_media] = (None, d1)
           \<and> insert_media eng d1 [coin_media, vase_media] = (None, d2)
           \<and> artifact_media d2
               = [[SInt 42, SInt 3, SNull, SNull, SNull, SNull, SNull],
                  [SInt 7, SNull, SNull, SNull, SInt 12, SNull, SNull],
                  [SInt 42, SInt 3, SNull, SNull, SNull, SNull, SNull],
                  [SInt 7, SNull, SNull, SNull, SInt 12, SNull, SNull]]
           \<and> copies (artifact_media d2) [SInt 42, SInt 3, SNull, SNull, SNull, SNull, SNull] = 2"
    by (rule exI [of _ d1], rule exI [of _ d2], intro conjI)
       (rule a(1), rule a(2), rule a3, rule a4)
  have B: "\<exists>d1 d2. insert_colors eng empty_db [coin_color] = (None, d1)
           \<and> insert_colors eng d1 [coin_color] = (None, d2)
           \<and> artifact_colors d2
               = [[SInt 42, SText ''Red'', SNull, SNull, SReal 0x3FE0000000000000, SNull],
                  [SInt 42, SText ''Red'', SNull, SNull, SReal 0x3FE0000000000000, SNull]]
           \<and> map (map to_py) (artifact_colors d2)
               = [row_values color_columns coin_color, row_values color_columns coin_color]"
    by (rule exI [of _ c1], rule exI [of _ c2], intro conjI)
       (rule b(1), rule b(2), rule b3, rule b4)
  show "list_all (bindable_row media_columns) [coin_media, vase_media]
     \<and> list_all (bindable_row color_columns) [coin_color]
     \<and> (\<exists>d1 d2. insert_media eng empty_db [coin_media, vase_media] = (None, d1)
           \<and> insert_media eng d1 [coin_media, vase_media] = (None, d2)
           \<and> artifact_media d2
               = [[SInt 42, SInt 3, SNull, SNull, SNull, SNull, SNull],
                  [SInt 7, SNull, SNull, SNull, SInt 12, SNull, SNull],
                  [SInt 42, SInt 3, SNull, SNull, SNull, SNull, SNull],
                  [SInt 7, SNull, SNull, SNull, SInt 12, SNull, SNull]]
           \<and> copies (artifact_media d2) [SInt 42, SInt 3, SNull, SNull, SNull, SNull, SNull] = 2)
     \<and> (\<exists>d1 d2. insert_colors eng empty_db [coin_color] = (None, d1)
           \<and> insert_colors eng d1 [coin_color] = (None, d2)
           \<and> artifact_colors d2
               = [[SInt 42, SText ''Red'', SNull, SNull, SReal 0x3FE0000000000000, SNull],
                  [SInt 42, SText ''Red'', SNull, SNull, SReal 0x3FE0000000000000, SNull]]
           \<and> map (map to_py) (artifact_colors d2)
               = [row_values color_columns coin_color, row_values color_columns coin_color])"
    by (intro conjI) (rule m, rule c, rule A, rule B)
qed

text \<open>
  Claim C8: for every metadata row with an integer id that is not in the store, whose
  values are null or of the type of their column, \<open>insert_metadata\<close> followed by the
  query for that id gives exactly one row, and its twelve fields are the twelve values
  that were inserted.
\<close>

theorem metadata_round_trip:
  assumes typed: "typed_metadata_row r"
    and key: "int_key (py_get r ''id'') = Some i"
    and fresh: "i \<notin> set (map fst (artifact_metadata d))"
  shows "\<exists>d1. insert_metadata eng d [r] = (None, d1)
           \<and> run_query_metadata_by_id d1 i = [row_values metadata_columns r]"
proof -
  from bind_all_fits [OF typed [unfolded typed_metadata_row_def], of eng] obtain xs where
    bound: "bind_all (row_values metadata_columns r) = Inr xs"
    and same: "map to_py (stored_row eng metadata_affinities xs) = row_values metadata_columns r"
    by blast
  from keyed_insert [OF key bound, of eng] obtain rest where
    st: "stored_row eng metadata_affinities xs = SInt i # rest"
    and ins: "insert_metadata_row eng (artifact_metadata d) r
                = Inr (if i \<in> set (map fst (artifact_metadata d)) then artifact_metadata d
                       else artifact_metadata d @ [(i, rest)])"
    by blast
  define d1 where "d1 = d\<lparr>artifact_metadata := artifact_metadata d @ [(i, rest)]\<rparr>"
  have first: "insert_metadata eng d [r] = (None, d1)"
    using ins fresh by (simp add: insert_metadata_def with_connection_def d1_def)
  from fresh have "filter (\<lambda>row. fst row = i) (artifact_metadata d) = []"
    by (auto simp: filter_empty_conv)
  then have "run_query_metadata_by_id d1 i = [map to_py (SInt i # rest)]"
    by (simp add: run_query_metadata_by_id_def d1_def)
  with same st have "run_query_metadata_by_id d1 i = [row_values metadata_columns r]" by simp
  with first show ?thesis by blast
qed

text \<open>
  Claim C8 at a row with id 42, loaded into the empty store and read back.
\<close>

theorem metadata_round_trip_witness:
  "\<forall>eng. typed_metadata_row coin_row \<and> int_key (py_get coin_row ''id'') = Some 42
     \<and> 42 \<notin> set (map fst (artifact_metadata empty_db))
     \<and> (\<exists>d1. insert_metadata eng empty_db [coin_row] = (None, d1)
           \<and> run_query_metadata_by_id d1 42
               = [[JInt 42, JStr ''Coin'', JNull, JNull, JNull, JNull, JNull, JNull, JNull, JNull,
                   JInt 1950, JNull]])"
proof
  fix eng
  have t: "typed_metadata_row coin_row"
    by (simp add: typed_metadata_row_def coin_row_def row_values_def metadata_columns_def
        metadata_affinities_def py_get_def get_default_def int64_def)
  have k: "int_key (py_get coin_row ''id'') = Some 42"
    by (simp add: coin_row_def py_get_def get_default_def int64_def)
  have f: "42 \<notin> set (map fst (artifact_metadata empty_db))"
    by (simp add: empty_db_def)
  have v: "row_values metadata_columns coin_row
             = [JInt 42, JStr ''Coin'', JNull, JNull, JNull, JNull, JNull, JNull, JNull, JNull,
                   JInt 1950, JNull]"
    by (simp add: coin_row_def row_values_def metadata_columns_def py_get_def get_default_def)
  from metadata_round_trip [OF t k f, of eng] t k f
  show "typed_metadata_row coin_row \<and> int_key (py_get coin_row ''id'') = Some 42
     \<and> 42 \<notin> set (map fst (artifact_metadata empty_db))
     \<and> (\<exists>d1. insert_metadata eng empty_db [coin_row] = (None, d1)
           \<and> run_query_metadata_by_id d1 42
               = [[JInt 42, JStr ''Coin'', JNull, JNull, JNull, JNull, JNull, JNull, JNull, JNull,
                   JInt 1950, JNull]])"
    unfolding v by simp
qed

text \<open>
  Claim C9: in each of the three loaders, when the rows before \<open>r\<close> are inserted and
  inserting \<open>r\<close> fails with \<open>e\<close>, the call ends with \<open>e\<close>, the rows after \<open>r\<close> are not
  looked at, and the store is the one before the call; and whenever a call ends with
  an error the store is the one before the call.
\<close>

theorem load_is_atomic:
  "(\<forall>t. exec_rows (insert_metadata_row eng) (artifact_metadata d) pre = Inr t
        \<and> insert_metadata_row eng t r = Inl e
        \<longrightarrow> insert_metadata eng d (pre @ r # post) = (Some e, d))
   \<and> (\<forall>t. exec_rows (insert_plain_row eng media_columns media_affinities) (artifact_media d) pre
          = Inr t
        \<and> insert_plain_row eng media_columns media_affinities t r = Inl e
        \<longrightarrow> insert_media eng d (pre @ r # post) = (Some e, d))
   \<and> (\<forall>t. exec_rows (insert_plain_row eng color_columns color_affinities) (artifact_colors d) pre
          = Inr t
        \<and> insert_plain_row eng color_columns color_affinities t r = Inl e
        \<longrightarrow> insert_colors eng d (pre @ r # post) = (Some e, d))
   \<and> (\<forall>x d'. insert_metadata eng d rows = (Some x, d') \<longrightarrow> d' = d)
   \<and> (\<forall>x d'. insert_media eng d rows = (Some x, d') \<longrightarrow> d' = d)
   \<and> (\<forall>x d'. insert_colors eng d rows = (Some x, d') \<longrightarrow> d' = d)"
proof (intro conjI allI impI)
  fix t
  assume "exec_rows (insert_metadata_row eng) (artifact_metadata d) pre = Inr t
        \<and> insert_metadata_row eng t r = Inl e"
  then have "exec_rows (insert_metadata_row eng) (artifact_metadata d) (pre @ r # post) = Inl e"
    by (auto intro: exec_rows_fails)
  then show "insert_metadata eng d (pre @ r # post) = (Some e, d)"
    by (simp add: insert_metadata_def with_connection_def)
next
  fix t
  assume "exec_rows (insert_plain_row eng media_columns media_affinities) (artifact_media d) pre
          = Inr t
        \<and> insert_plain_row eng media_columns media_affinities t r = Inl e"
  then have "exec_rows (insert_plain_row eng media_columns media_affinities) (artifact_media d)
               (pre @ r # post) = Inl e"
    by (auto intro: exec_rows_fails)
  then show "insert_media eng d (pre @ r # post) = (Some e, d)"
    by (simp add: insert_media_def with_connection_def)
next
  fix t
  assume "exec_rows (insert_plain_row eng color_columns color_affinities) (artifact_colors d) pre
          = Inr t
        \<and> insert_plain_row eng color_columns color_affinities t r = Inl e"
  then have "exec_rows (insert_plain_row eng color_columns color_affinities) (artifact_colors d)
               (pre @ r # post) = Inl e"
    by (auto intro: exec_rows_fails)
  then show "insert_colors eng d (pre @ r # post) = (Some e, d)"
    by (simp add: insert_colors_def with_connection_def)
next
  fix x d' assume "insert_metadata eng d rows = (Some x, d')"
  then show "d' = d"
    by (auto simp: insert_metadata_def with_connection_def split: sum.splits)
next
  fix x d' assume "insert_media eng d rows = (Some x, d')"
  then show "d' = d"
    by (auto simp: insert_media_def with_connection_def split: sum.splits)
next
  fix x d' assume "insert_colors eng d rows = (Some x, d')"
  then show "d' = d"
    by (auto simp: insert_colors_def with_connection_def split: sum.splits)
qed

text \<open>
  Claim C9 at a batch of three metadata rows whose second row has a list as title.
\<close>

theorem load_is_atomic_witness:
  "\<forall>eng. insert_metadata eng empty_db [coin_row, malformed_row, vase_row]
            = (Some UnsupportedType, empty_db)"
proof
  fix eng
  have p: "exec_rows (insert_metadata_row eng) (artifact_metadata empty_db) [coin_row]
             = Inr [(42, [SText ''Coin'', SNull, SNull, SNull, SNull, SNull, SNull, SNull, SNull,
                          SInt 1950, SNull])]"
    by (simp add: insert_metadata_row_def empty_db_def coin_row_def row_values_def
        metadata_columns_def metadata_affinities_def stored_row_def py_get_def get_default_def
        int64_def)
  have q: "insert_metadata_row eng
             [(42, [SText ''Coin'', SNull, SNull, SNull, SNull, SNull, SNull, SNull, SNull,
                          SInt 1950, SNull])] malformed_row = Inl UnsupportedType"
    by (simp add: insert_metadata_row_def malformed_row_def row_values_def
        metadata_columns_def py_get_def get_default_def int64_def)
  from load_is_atomic [of eng empty_db "[coin_row]" malformed_row UnsupportedType "[vase_row]"] p q
  show "insert_metadata eng empty_db [coin_row, malformed_row, vase_row]
            = (Some UnsupportedType, empty_db)"
    by simp
qed

end
